theory Spec2Isabelle
  imports Complex_Main "HOL-Library.Log_Nat"
begin

section \<open>Python numbers\<close>

text \<open>
  The application computes with Python \<^verbatim>\<open>int\<close> and \<^verbatim>\<open>float\<close> values. An \<^verbatim>\<open>int\<close>
  is an unbounded integer. A \<^verbatim>\<open>float\<close> is modelled by the real number it stands for and
  its arithmetic by exact arithmetic: the rounding error of binary floating point,
  infinities and NaN are outside this model. Every concrete input evaluated below is a
  short decimal on which the exact result and the binary one agree.
\<close>

datatype pynum = PyInt int | PyFloat real

fun num_val :: "pynum \<Rightarrow> real" where
  "num_val (PyInt i) = of_int i"
| "num_val (PyFloat r) = r"

text \<open>\<^verbatim>\<open>int(x)\<close> on a float truncates towards zero.\<close>

definition py_int :: "real \<Rightarrow> int" where
  "py_int x = (if 0 \<le> x then \<lfloor>x\<rfloor> else \<lceil>x\<rceil>)"

text \<open>
  \<^verbatim>\<open>round(x, 2)\<close> rounds the value to two decimals, a tie going to the even
  neighbour.
\<close>

definition round_half_even :: "real \<Rightarrow> int" where
  "round_half_even y =
     (let f = \<lfloor>y\<rfloor>; d = y - of_int f
      in if d < 1 / 2 then f else if 1 / 2 < d then f + 1 else if even f then f else f + 1)"

definition py_round2 :: "real \<Rightarrow> real" where
  "py_round2 x = of_int (round_half_even (x * 100)) / 100"

section \<open>Denominations\<close>

definition NOTES :: "pynum list" where
  "NOTES = [PyInt 100, PyInt 50, PyInt 25, PyInt 20]"

definition COINS :: "pynum list" where
  "COINS = [PyInt 10, PyInt 5, PyInt 1,
            PyFloat (1 / 2), PyFloat (1 / 4), PyFloat (1 / 10), PyFloat (1 / 20)]"

text \<open>\<^verbatim>\<open>sorted(xs, reverse=True)\<close>: a stable sort into descending numeric order.\<close>

definition sorted_reverse :: "pynum list \<Rightarrow> pynum list" where
  "sorted_reverse xs = rev (sort_key num_val (rev xs))"

section \<open>The change calculator\<close>

text \<open>
  A Python \<^verbatim>\<open>dict\<close> keyed by numbers, in insertion order. Keys compare by numeric value;
  assigning to a key that is present keeps its place.
\<close>

type_synonym breakdown = "(pynum \<times> int) list"

fun dict_set :: "breakdown \<Rightarrow> pynum \<Rightarrow> int \<Rightarrow> breakdown" where
  "dict_set [] k v = [(k, v)]"
| "dict_set ((k', v') # kvs) k v =
     (if num_val k' = num_val k then (k', v) # kvs else (k', v') # dict_set kvs k v)"

text \<open>
  The \<^verbatim>\<open>for\<close> loop of \<^verbatim>\<open>calculate_change\<close>; its state is the pair of
  \<^verbatim>\<open>change_breakdown\<close> and \<^verbatim>\<open>remaining\<close>.
\<close>

fun change_loop :: "pynum list \<Rightarrow> breakdown \<times> real \<Rightarrow> breakdown \<times> real" where
  "change_loop [] st = st"
| "change_loop (denom # ds) (change_breakdown, remaining) =
     (if num_val denom \<le> remaining then
        (let count = py_int (remaining / num_val denom)
         in change_loop ds
              (dict_set change_breakdown denom count,
               py_round2 (remaining - of_int count * num_val denom)))
      else change_loop ds (change_breakdown, remaining))"

definition calculate_change :: "real \<Rightarrow> breakdown" where
  "calculate_change amount = fst (change_loop (sorted_reverse (NOTES @ COINS)) ([], amount))"

text \<open>\<^verbatim>\<open>sum(d * count for d, count in breakdown.items())\<close>\<close>

definition breakdown_total :: "breakdown \<Rightarrow> real" where
  "breakdown_total bd = (\<Sum>(d, c) \<leftarrow> bd. num_val d * of_int c)"

text \<open>
  The procedure as the specification words it: at each denomination \<open>d\<close>, in descending
  order, take \<open>count = floor(remaining / d)\<close>, record if \<open>count > 0\<close>, set
  \<open>remaining = round(remaining - count * d, 2)\<close>.
\<close>

fun spec_loop :: "pynum list \<Rightarrow> breakdown \<times> real \<Rightarrow> breakdown \<times> real" where
  "spec_loop [] st = st"
| "spec_loop (d # ds) (recorded, remaining) =
     (let count = \<lfloor>remaining / num_val d\<rfloor>
      in spec_loop ds
           (if 0 < count then dict_set recorded d count else recorded,
            py_round2 (remaining - of_int count * num_val d)))"

definition spec_change :: "real \<Rightarrow> breakdown" where
  "spec_change amount = fst (spec_loop (sorted_reverse (NOTES @ COINS)) ([], amount))"

section \<open>Products, session and transaction log\<close>

text \<open>
  A row of the \<^verbatim>\<open>Product\<close> table; the table is a map from the primary key \<^verbatim>\<open>id\<close> to
  the row. The source's column \<^verbatim>\<open>type\<close> is the field \<open>kind\<close>.
\<close>

record product =
  name :: string
  kind :: string
  price :: real
  quantity :: int

text \<open>The rows that \<^verbatim>\<open>create_tables\<close> inserts into an empty table.\<close>

definition sample_products :: "int \<rightharpoonup> product" where
  "sample_products = map_of
     [(1, \<lparr>name = ''sando'', kind = ''cake'', price = 15, quantity = 10\<rparr>),
      (2, \<lparr>name = ''lays'', kind = ''cake'', price = 20, quantity = 8\<rparr>),
      (3, \<lparr>name = ''m&m'', kind = ''cake'', price = 30, quantity = 5\<rparr>),
      (4, \<lparr>name = ''Coca Cola'', kind = ''drink'', price = 50, quantity = 15\<rparr>),
      (5, \<lparr>name = ''Sprite'', kind = ''drink'', price = 45, quantity = 12\<rparr>),
      (6, \<lparr>name = ''water'', kind = ''drink'', price = 25, quantity = 10\<rparr>)]"

text \<open>
  The keys of \<^verbatim>\<open>session['denominations_inserted']\<close> are the texts \<^verbatim>\<open>str(denom)\<close>. The text
  of an \<^verbatim>\<open>int\<close> is made of digits only (\<^verbatim>\<open>'100'\<close>), the text of a \<^verbatim>\<open>float\<close> always has
  a point or an exponent (\<^verbatim>\<open>'100.0'\<close>, \<^verbatim>\<open>'0.5'\<close>), and \<^verbatim>\<open>str\<close> gives different texts
  to different values of one kind. The code only compares these texts and reads them back
  with \<^verbatim>\<open>float\<close>, so a text is modelled by the kind and the value it was made from.
\<close>

datatype text_key = StrInt int | StrFloat real

fun py_str :: "pynum \<Rightarrow> text_key" where
  "py_str (PyInt i) = StrInt i"
| "py_str (PyFloat r) = StrFloat r"

text \<open>\<^verbatim>\<open>float(k)\<close> on such a text.\<close>

fun py_float :: "text_key \<Rightarrow> real" where
  "py_float (StrInt i) = of_int i"
| "py_float (StrFloat r) = r"

text \<open>
  One entry of \<^verbatim>\<open>session['current_transaction']\<close>: the dict with the keys
  \<^verbatim>\<open>product_id\<close>, \<^verbatim>\<open>name\<close>, \<^verbatim>\<open>quantity\<close>, \<^verbatim>\<open>price\<close> and \<^verbatim>\<open>total\<close>.
\<close>

record purchase_item =
  item_product_id :: int
  item_name :: string
  item_quantity :: int
  item_price :: real
  item_total :: real

record session_data =
  inserted_money :: real
  denominations_inserted :: "(text_key \<times> int) list"
  current_transaction :: "purchase_item list"

text \<open>
  A row of the \<^verbatim>\<open>TransactionLog\<close> table. The source stores \<^verbatim>\<open>str(dict)\<close> in the four
  breakdown columns and the joined texts \<^verbatim>\<open>'{quantity}x {name}'\<close> in
  \<^verbatim>\<open>products_purchased\<close>; the model keeps the dicts and the list of pairs.
\<close>

record transaction_log =
  log_date :: string
  log_time :: string
  amount_inserted_notes :: "(text_key \<times> int) list"
  amount_inserted_coins :: "(text_key \<times> int) list"
  change_returned_notes :: breakdown
  change_returned_coins :: breakdown
  total_amount :: real
  change_amount :: real
  products_purchased :: "(int \<times> string) list"

text \<open>
  What the view functions read and write: the product table, the client's session (\<open>None\<close>
  until \<^verbatim>\<open>index\<close> has stored its three keys) and the transaction log table.
\<close>

record state =
  products :: "int \<rightharpoonup> product"
  session :: "session_data option"
  transaction_logs :: "transaction_log list"

text \<open>\<^verbatim>\<open>{str(denom): 0 for denom in NOTES + COINS}\<close>\<close>

definition zero_counts :: "(text_key \<times> int) list" where
  "zero_counts = map (\<lambda>denom. (py_str denom, 0)) (NOTES @ COINS)"

definition initial_session :: session_data where
  "initial_session =
     \<lparr>inserted_money = 0, denominations_inserted = zero_counts, current_transaction = []\<rparr>"

text \<open>The effect of \<^verbatim>\<open>index\<close> on the state (the page it renders is left out).\<close>

definition index :: "state \<Rightarrow> state" where
  "index st = (case session st of None \<Rightarrow> st\<lparr>session := Some initial_session\<rparr> | Some s \<Rightarrow> st)"

definition fresh_state :: state where
  "fresh_state = index \<lparr>products = sample_products, session = None, transaction_logs = []\<rparr>"

section \<open>Requests and responses\<close>

text \<open>
  A form field as the view function meets it: \<^verbatim>\<open>request.form[k]\<close> raises
  \<^verbatim>\<open>BadRequestKeyError\<close> when the field is absent, and \<^verbatim>\<open>int(...)\<close> or \<^verbatim>\<open>float(...)\<close>
  raises \<^verbatim>\<open>ValueError\<close> when its text is not a number.
\<close>

datatype 'a field = Absent | Malformed | Value 'a

datatype exn = BadRequestKeyError | ValueError | KeyError

text \<open>
  The four \<^verbatim>\<open>{'error': ...}\<close> payloads of \<^verbatim>\<open>purchase\<close>, each sent with status 400:
  \<^verbatim>\<open>'Please enter valid product ID and quantity'\<close>, \<^verbatim>\<open>'Invalid product ID'\<close>,
  \<^verbatim>\<open>'Insufficient quantity. Only {product.quantity} available'\<close> and
  \<^verbatim>\<open>'Insufficient funds. Required: Rs {total_cost:.2f}'\<close>.
\<close>

datatype error_payload =
  InvalidInput | InvalidProduct | InsufficientStock int | InsufficientFunds real

text \<open>
  The JSON bodies, by their data: \<open>Inserted\<close> has \<^verbatim>\<open>inserted_money\<close> and the amount of
  the message; \<open>Purchased\<close> has the quantity and name of the message, \<^verbatim>\<open>inserted_money\<close>
  and \<^verbatim>\<open>remaining_quantity\<close>; \<open>ChangeReturned\<close> has the amount of the message and the
  breakdown that \<^verbatim>\<open>format_change_message\<close> renders; \<open>Info\<close> is
  \<^verbatim>\<open>{'info': 'Thank you for your purchase!'}\<close>; \<open>Redirected\<close> is the redirect to the
  admin page after \<^verbatim>\<open>flash\<close> of \<^verbatim>\<open>'Please enter valid values for all fields'\<close>,
  \<^verbatim>\<open>'Product updated successfully!'\<close> or \<^verbatim>\<open>'Product not found!'\<close>.
\<close>

datatype flash = InvalidValues | ProductUpdated | ProductNotFound

datatype response =
  Inserted real real
| Error400 error_payload
| Purchased int string real int
| ChangeReturned real breakdown
| Info
| Redirected flash

text \<open>
  A view function returns \<open>Inr\<close> of its own response and the new state, or \<open>Inl\<close> of
  the exception that leaves it: nothing in the view catches it and the state is as before.
\<close>

type_synonym outcome = "exn + (response \<times> state)"

definition state_after :: "state \<Rightarrow> outcome \<Rightarrow> state" where
  "state_after st out = (case out of Inl e \<Rightarrow> st | Inr (r, st') \<Rightarrow> st')"

section \<open>The view functions\<close>

text \<open>
  \<^verbatim>\<open>d[k] += 1\<close> on a dict with text keys; \<^verbatim>\<open>insert_money\<close> calls it only for a key
  that is present.
\<close>

fun dict_add1 :: "(text_key \<times> int) list \<Rightarrow> text_key \<Rightarrow> (text_key \<times> int) list" where
  "dict_add1 [] k = []"
| "dict_add1 ((k', v) # kvs) k =
     (if k' = k then (k', v + 1) # kvs else (k', v) # dict_add1 kvs k)"

definition insert_money :: "real field \<Rightarrow> state \<Rightarrow> outcome" where
  "insert_money amount_field st =
     (case amount_field of
        Absent \<Rightarrow> Inl BadRequestKeyError
      | Malformed \<Rightarrow> Inl ValueError
      | Value amount \<Rightarrow>
          (case session st of
             None \<Rightarrow> Inl KeyError
           | Some s \<Rightarrow>
               (let s1 = s\<lparr>inserted_money := inserted_money s + amount\<rparr>;
                    denom_key = py_str (PyFloat amount);
                    s2 = (if denom_key \<in> fst ` set (denominations_inserted s1)
                          then s1\<lparr>denominations_inserted :=
                                    dict_add1 (denominations_inserted s1) denom_key\<rparr>
                          else s1)
                in Inr (Inserted (py_round2 (inserted_money s2)) amount,
                        st\<lparr>session := Some s2\<rparr>))))"

definition purchase :: "int field \<Rightarrow> int field \<Rightarrow> state \<Rightarrow> outcome" where
  "purchase product_id_field quantity_field st =
     (case product_id_field of
        Absent \<Rightarrow> Inl BadRequestKeyError
      | Malformed \<Rightarrow> Inr (Error400 InvalidInput, st)
      | Value product_id \<Rightarrow>
     (case quantity_field of
        Absent \<Rightarrow> Inl BadRequestKeyError
      | Malformed \<Rightarrow> Inr (Error400 InvalidInput, st)
      | Value qty \<Rightarrow>
     (case products st product_id of
        None \<Rightarrow> Inr (Error400 InvalidProduct, st)
      | Some p \<Rightarrow>
          if quantity p < qty then Inr (Error400 (InsufficientStock (quantity p)), st)
          else
            (let total_cost = price p * of_int qty
             in case session st of
                  None \<Rightarrow> Inl KeyError
                | Some s \<Rightarrow>
                    if inserted_money s < total_cost
                    then Inr (Error400 (InsufficientFunds total_cost), st)
                    else
                      (let p' = p\<lparr>quantity := quantity p - qty\<rparr>;
                           purchase_item =
                             \<lparr>item_product_id = product_id, item_name = name p,
                              item_quantity = qty, item_price = price p,
                              item_total = total_cost\<rparr>;
                           s' = s\<lparr>inserted_money := inserted_money s - total_cost,
                                  current_transaction :=
                                    current_transaction s @ [purchase_item]\<rparr>
                       in Inr (Purchased qty (name p) (py_round2 (inserted_money s'))
                                 (quantity p'),
                               st\<lparr>products := (products st)(product_id \<mapsto> p'),
                                  session := Some s'\<rparr>))))))"

text \<open>
  \<^verbatim>\<open>log_transaction\<close>: the row it adds, from the clock's date and time, the change
  breakdown and the session as it is when the function is called.
\<close>

definition log_entry :: "string \<times> string \<Rightarrow> breakdown \<Rightarrow> session_data \<Rightarrow> transaction_log" where
  "log_entry now change_breakdown s =
     \<lparr>log_date = fst now,
      log_time = snd now,
      amount_inserted_notes =
        filter (\<lambda>(k, v). 1 \<le> py_float k \<and> 0 < v) (denominations_inserted s),
      amount_inserted_coins =
        filter (\<lambda>(k, v). py_float k < 1 \<and> 0 < v) (denominations_inserted s),
      change_returned_notes = filter (\<lambda>(k, v). 1 \<le> num_val k \<and> 0 < v) change_breakdown,
      change_returned_coins = filter (\<lambda>(k, v). num_val k < 1 \<and> 0 < v) change_breakdown,
      total_amount = (\<Sum>(denom, count) \<leftarrow> denominations_inserted s. py_float denom * of_int count),
      change_amount = inserted_money s,
      products_purchased = map (\<lambda>item. (item_quantity item, item_name item)) (current_transaction s)\<rparr>"

definition log_transaction :: "string \<times> string \<Rightarrow> breakdown \<Rightarrow> session_data \<Rightarrow> state \<Rightarrow> state" where
  "log_transaction now change_breakdown s st =
     st\<lparr>transaction_logs := transaction_logs st @ [log_entry now change_breakdown s]\<rparr>"

definition return_change :: "string \<times> string \<Rightarrow> state \<Rightarrow> outcome" where
  "return_change now st =
     (case session st of
        None \<Rightarrow> Inl KeyError
      | Some s \<Rightarrow>
          if 0 < inserted_money s then
            (let change_breakdown = calculate_change (inserted_money s);
                 st1 = log_transaction now change_breakdown s st;
                 change_amount = inserted_money s
             in Inr (ChangeReturned change_amount change_breakdown,
                     st1\<lparr>session := Some initial_session\<rparr>))
          else
            (let st1 = (if current_transaction s \<noteq> []
                        then log_transaction now [] s st else st)
             in Inr (Info, st1\<lparr>session := Some initial_session\<rparr>)))"

text \<open>
  \<^verbatim>\<open>update_product\<close> of the admin page. The fields \<^verbatim>\<open>name\<close> and \<^verbatim>\<open>type\<close> are texts,
  \<open>None\<close> when absent from the form.
\<close>

definition update_product ::
  "int field \<Rightarrow> string option \<Rightarrow> string option \<Rightarrow> real field \<Rightarrow> int field \<Rightarrow> state \<Rightarrow> outcome"
where
  "update_product product_id_field name_field type_field price_field quantity_field st =
     (case product_id_field of
        Absent \<Rightarrow> Inl BadRequestKeyError
      | Malformed \<Rightarrow> Inr (Redirected InvalidValues, st)
      | Value product_id \<Rightarrow>
     (case name_field of
        None \<Rightarrow> Inl BadRequestKeyError
      | Some new_name \<Rightarrow>
     (case type_field of
        None \<Rightarrow> Inl BadRequestKeyError
      | Some product_type \<Rightarrow>
     (case price_field of
        Absent \<Rightarrow> Inl BadRequestKeyError
      | Malformed \<Rightarrow> Inr (Redirected InvalidValues, st)
      | Value new_price \<Rightarrow>
     (case quantity_field of
        Absent \<Rightarrow> Inl BadRequestKeyError
      | Malformed \<Rightarrow> Inr (Redirected InvalidValues, st)
      | Value qty \<Rightarrow>
     (case products st product_id of
        Some p \<Rightarrow>
          Inr (Redirected ProductUpdated,
               st\<lparr>products := (products st)(product_id \<mapsto>
                    p\<lparr>name := new_name, kind := product_type, price := new_price,
                      quantity := qty\<rparr>)\<rparr>)
      | None \<Rightarrow> Inr (Redirected ProductNotFound, st)))))))"


definition negative_price_state :: state where
  "negative_price_state =
     state_after fresh_state
       (update_product (Value 1) (Some ''sando'') (Some ''cake'') (Value (- 15)) (Value 10)
          fresh_state)"

definition exact_purchase_state :: state where
  "exact_purchase_state =
     state_after (state_after fresh_state (insert_money (Value 15) fresh_state))
       (purchase (Value 1) (Value 1)
          (state_after fresh_state (insert_money (Value 15) fresh_state)))"

text \<open>
  The sum over the per-denomination counters that \<^verbatim>\<open>log_transaction\<close> calls the total
  inserted amount, and the ledger invariant of the specification.
\<close>

definition counters_total :: "session_data \<Rightarrow> real" where
  "counters_total s =
     (\<Sum>(denom, count) \<leftarrow> denominations_inserted s. py_float denom * of_int count)"

definition ledger_invariant :: "session_data \<Rightarrow> bool" where
  "ledger_invariant s \<longleftrightarrow> inserted_money s = counters_total s"

text \<open>The numeric keys of a breakdown.\<close>

definition bd_keys :: "breakdown \<Rightarrow> real set" where
  "bd_keys bd = (\<lambda>p. num_val (fst p)) ` set bd"

section \<open>The binary64 reading\<close>

text \<open>
  The definitions above read a \<^verbatim>\<open>float\<close> as the decimal it stands for. The ones below
  read it as what Python has: an IEEE 754 binary64 value, rounded to the nearest
  representable number after every operation, with a tie going to the even mantissa, with
  the two infinities and NaN. Zero has no sign here. They also let the conversion of an
  \<^verbatim>\<open>int\<close> to a \<^verbatim>\<open>float\<close> raise \<^verbatim>\<open>OverflowError\<close>, and take the database as a parameter
  that says which integers and which log rows it accepts; an exception that leaves a view
  function keeps what the view had already stored in the session.
\<close>

definition shift64 :: "real \<Rightarrow> nat" where
  "shift64 y = nat (bitlen \<lfloor>y\<rfloor> - 53)"

definition round_units :: "real \<Rightarrow> real" where
  "round_units y = of_int (round_half_even (y / 2 ^ shift64 y)) * 2 ^ shift64 y"

definition round_scaled :: "nat \<Rightarrow> real \<Rightarrow> real" where
  "round_scaled E a = round_units (a * 2 ^ E) / 2 ^ E"

definition round_mag :: "real \<Rightarrow> real" where
  "round_mag a = round_scaled 1074 a"

datatype pyfloat = Fin real | PInf | NInf | NaN

definition round64 :: "real \<Rightarrow> pyfloat" where
  "round64 x =
     (let m = round_mag \<bar>x\<bar>
      in if 2 ^ 1024 \<le> m then (if 0 < x then PInf else NInf)
         else Fin (if x < 0 then - m else m))"

datatype py_exn = Py exn | OverflowError | ZeroDivisionError | DatabaseError

fun f_neg :: "pyfloat \<Rightarrow> pyfloat" where
  "f_neg (Fin x) = Fin (- x)"
| "f_neg PInf = NInf"
| "f_neg NInf = PInf"
| "f_neg NaN = NaN"

fun f_lt :: "pyfloat \<Rightarrow> pyfloat \<Rightarrow> bool" where
  "f_lt (Fin x) (Fin y) = (x < y)"
| "f_lt NaN b = False"
| "f_lt a NaN = False"
| "f_lt a NInf = False"
| "f_lt NInf b = True"
| "f_lt PInf b = False"
| "f_lt a PInf = True"

fun f_le :: "pyfloat \<Rightarrow> pyfloat \<Rightarrow> bool" where
  "f_le (Fin x) (Fin y) = (x \<le> y)"
| "f_le NaN b = False"
| "f_le a NaN = False"
| "f_le NInf b = True"
| "f_le a NInf = False"
| "f_le a PInf = True"
| "f_le PInf b = False"

fun f_add :: "pyfloat \<Rightarrow> pyfloat \<Rightarrow> pyfloat" where
  "f_add (Fin x) (Fin y) = round64 (x + y)"
| "f_add NaN b = NaN"
| "f_add a NaN = NaN"
| "f_add PInf NInf = NaN"
| "f_add NInf PInf = NaN"
| "f_add PInf b = PInf"
| "f_add a PInf = PInf"
| "f_add NInf b = NInf"
| "f_add a NInf = NInf"

definition f_sub :: "pyfloat \<Rightarrow> pyfloat \<Rightarrow> pyfloat" where
  "f_sub a b = f_add a (f_neg b)"

fun f_mul :: "pyfloat \<Rightarrow> pyfloat \<Rightarrow> pyfloat" where
  "f_mul (Fin x) (Fin y) = round64 (x * y)"
| "f_mul NaN b = NaN"
| "f_mul a NaN = NaN"
| "f_mul (Fin x) PInf = (if x = 0 then NaN else if 0 < x then PInf else NInf)"
| "f_mul (Fin x) NInf = (if x = 0 then NaN else if 0 < x then NInf else PInf)"
| "f_mul PInf (Fin y) = (if y = 0 then NaN else if 0 < y then PInf else NInf)"
| "f_mul NInf (Fin y) = (if y = 0 then NaN else if 0 < y then NInf else PInf)"
| "f_mul PInf PInf = PInf"
| "f_mul PInf NInf = NInf"
| "f_mul NInf PInf = NInf"
| "f_mul NInf NInf = PInf"

fun f_div :: "pyfloat \<Rightarrow> pyfloat \<Rightarrow> pyfloat" where
  "f_div (Fin x) (Fin y) = round64 (x / y)"
| "f_div NaN b = NaN"
| "f_div a NaN = NaN"
| "f_div (Fin x) b = Fin 0"
| "f_div PInf (Fin y) = (if 0 < y then PInf else NInf)"
| "f_div NInf (Fin y) = (if 0 < y then NInf else PInf)"
| "f_div PInf PInf = NaN"
| "f_div PInf NInf = NaN"
| "f_div NInf PInf = NaN"
| "f_div NInf NInf = NaN"

definition py_truediv :: "pyfloat \<Rightarrow> pyfloat \<Rightarrow> py_exn + pyfloat" where
  "py_truediv a b = (if b = Fin 0 then Inl ZeroDivisionError else Inr (f_div a b))"

fun py_int64 :: "pyfloat \<Rightarrow> py_exn + int" where
  "py_int64 (Fin x) = Inr (if 0 \<le> x then \<lfloor>x\<rfloor> else \<lceil>x\<rceil>)"
| "py_int64 NaN = Inl (Py ValueError)"
| "py_int64 a = Inl OverflowError"

fun py_floor64 :: "pyfloat \<Rightarrow> py_exn + int" where
  "py_floor64 (Fin x) = Inr \<lfloor>x\<rfloor>"
| "py_floor64 NaN = Inl (Py ValueError)"
| "py_floor64 a = Inl OverflowError"

definition int_to_float :: "int \<Rightarrow> py_exn + pyfloat" where
  "int_to_float n = (case round64 (of_int n) of Fin x \<Rightarrow> Inr (Fin x) | a \<Rightarrow> Inl OverflowError)"

fun py_round2_64 :: "pyfloat \<Rightarrow> pyfloat" where
  "py_round2_64 (Fin x) = round64 (of_int (round_half_even (x * 100)) / 100)"
| "py_round2_64 a = a"

fun ge_num :: "pyfloat \<Rightarrow> pynum \<Rightarrow> bool" where
  "ge_num a (PyInt i) = f_le (Fin (of_int i)) a"
| "ge_num a (PyFloat r) = f_le (round64 r) a"

fun div_num :: "pyfloat \<Rightarrow> pynum \<Rightarrow> py_exn + pyfloat" where
  "div_num a (PyInt i) = (case int_to_float i of Inl e \<Rightarrow> Inl e | Inr b \<Rightarrow> py_truediv a b)"
| "div_num a (PyFloat r) = py_truediv a (round64 r)"

fun sub_product :: "pyfloat \<Rightarrow> int \<Rightarrow> pynum \<Rightarrow> py_exn + pyfloat" where
  "sub_product a count (PyInt i) =
     (case int_to_float (count * i) of Inl e \<Rightarrow> Inl e | Inr p \<Rightarrow> Inr (f_sub a p))"
| "sub_product a count (PyFloat r) =
     (case int_to_float count of Inl e \<Rightarrow> Inl e | Inr c \<Rightarrow> Inr (f_sub a (f_mul c (round64 r))))"

fun change_loop64 :: "pynum list \<Rightarrow> breakdown \<times> pyfloat \<Rightarrow> py_exn + breakdown \<times> pyfloat" where
  "change_loop64 [] st = Inr st"
| "change_loop64 (denom # ds) (change_breakdown, remaining) =
     (if ge_num remaining denom then
        (case div_num remaining denom of
           Inl e \<Rightarrow> Inl e
         | Inr ratio \<Rightarrow>
        (case py_int64 ratio of
           Inl e \<Rightarrow> Inl e
         | Inr count \<Rightarrow>
        (case sub_product remaining count denom of
           Inl e \<Rightarrow> Inl e
         | Inr difference \<Rightarrow>
             change_loop64 ds
               (dict_set change_breakdown denom count, py_round2_64 difference))))
      else change_loop64 ds (change_breakdown, remaining))"

definition calculate_change64 :: "pyfloat \<Rightarrow> py_exn + breakdown" where
  "calculate_change64 amount =
     (case change_loop64 (sorted_reverse (NOTES @ COINS)) ([], amount) of
        Inl e \<Rightarrow> Inl e
      | Inr st \<Rightarrow> Inr (fst st))"

fun spec_loop64 :: "pynum list \<Rightarrow> breakdown \<times> pyfloat \<Rightarrow> py_exn + breakdown \<times> pyfloat" where
  "spec_loop64 [] st = Inr st"
| "spec_loop64 (d # ds) (recorded, remaining) =
     (case div_num remaining d of
        Inl e \<Rightarrow> Inl e
      | Inr ratio \<Rightarrow>
     (case py_floor64 ratio of
        Inl e \<Rightarrow> Inl e
      | Inr count \<Rightarrow>
     (case sub_product remaining count d of
        Inl e \<Rightarrow> Inl e
      | Inr difference \<Rightarrow>
          spec_loop64 ds
            (if 0 < count then dict_set recorded d count else recorded,
             py_round2_64 difference))))"

definition spec_change64 :: "pyfloat \<Rightarrow> py_exn + breakdown" where
  "spec_change64 amount =
     (case spec_loop64 (sorted_reverse (NOTES @ COINS)) ([], amount) of
        Inl e \<Rightarrow> Inl e
      | Inr st \<Rightarrow> Inr (fst st))"

fun num_real :: "pynum \<Rightarrow> real" where
  "num_real (PyInt i) = of_int i"
| "num_real (PyFloat r) = (if r < 0 then - round_mag (- r) else round_mag r)"

definition breakdown_sum64 :: "breakdown \<Rightarrow> real" where
  "breakdown_sum64 bd = (\<Sum>(d, c) \<leftarrow> bd. num_real d * of_int c)"

record product64 =
  p_name :: string
  p_kind :: string
  p_price :: pyfloat
  p_quantity :: int

definition sample_products64 :: "int \<rightharpoonup> product64" where
  "sample_products64 = map_of
     [(1, \<lparr>p_name = ''sando'', p_kind = ''cake'', p_price = Fin 15, p_quantity = 10\<rparr>),
      (2, \<lparr>p_name = ''lays'', p_kind = ''cake'', p_price = Fin 20, p_quantity = 8\<rparr>),
      (3, \<lparr>p_name = ''m&m'', p_kind = ''cake'', p_price = Fin 30, p_quantity = 5\<rparr>),
      (4, \<lparr>p_name = ''Coca Cola'', p_kind = ''drink'', p_price = Fin 50, p_quantity = 15\<rparr>),
      (5, \<lparr>p_name = ''Sprite'', p_kind = ''drink'', p_price = Fin 45, p_quantity = 12\<rparr>),
      (6, \<lparr>p_name = ''water'', p_kind = ''drink'', p_price = Fin 25, p_quantity = 10\<rparr>)]"

datatype text_key64 = TextInt int | TextFloat pyfloat

fun py_str64 :: "pynum \<Rightarrow> text_key64" where
  "py_str64 (PyInt i) = TextInt i"
| "py_str64 (PyFloat r) = TextFloat (round64 r)"

fun py_float64 :: "text_key64 \<Rightarrow> pyfloat" where
  "py_float64 (TextInt i) = round64 (of_int i)"
| "py_float64 (TextFloat a) = a"

record purchase_item64 =
  line_product_id :: int
  line_name :: string
  line_quantity :: int
  line_price :: pyfloat
  line_total :: pyfloat

record session64 =
  inserted_money64 :: pyfloat
  denominations_inserted64 :: "(text_key64 \<times> int) list"
  current_transaction64 :: "purchase_item64 list"

record transaction_log64 =
  log_date64 :: string
  log_time64 :: string
  amount_inserted_notes64 :: "(text_key64 \<times> int) list"
  amount_inserted_coins64 :: "(text_key64 \<times> int) list"
  change_returned_notes64 :: breakdown
  change_returned_coins64 :: breakdown
  total_amount64 :: pyfloat
  change_amount64 :: pyfloat
  products_purchased64 :: "(int \<times> string) list"

record state64 =
  products64 :: "int \<rightharpoonup> product64"
  client_session :: "session64 option"
  transaction_logs64 :: "transaction_log64 list"

record database =
  accepts_id :: "int \<Rightarrow> bool"
  accepts_quantity :: "int \<Rightarrow> bool"
  accepts_log :: "transaction_log64 \<Rightarrow> bool"

definition int64_database :: database where
  "int64_database =
     \<lparr>accepts_id = (\<lambda>n. - (2 ^ 63) \<le> n \<and> n < 2 ^ 63),
      accepts_quantity = (\<lambda>n. - (2 ^ 63) \<le> n \<and> n < 2 ^ 63),
      accepts_log = (\<lambda>row. True)\<rparr>"

definition zero_counts64 :: "(text_key64 \<times> int) list" where
  "zero_counts64 = map (\<lambda>denom. (py_str64 denom, 0)) (NOTES @ COINS)"

definition initial_session64 :: session64 where
  "initial_session64 =
     \<lparr>inserted_money64 = Fin 0, denominations_inserted64 = zero_counts64,
      current_transaction64 = []\<rparr>"

definition index64 :: "state64 \<Rightarrow> state64" where
  "index64 st =
     (case client_session st of None \<Rightarrow> st\<lparr>client_session := Some initial_session64\<rparr>
      | Some s \<Rightarrow> st)"

definition fresh_state64 :: state64 where
  "fresh_state64 =
     index64 \<lparr>products64 = sample_products64, client_session = None, transaction_logs64 = []\<rparr>"

datatype error_payload64 =
  InvalidInput64 | InvalidProduct64 | InsufficientStock64 int | InsufficientFunds64 pyfloat

datatype response64 =
  Inserted64 pyfloat pyfloat
| Error400_64 error_payload64
| Purchased64 int string pyfloat int
| ChangeReturned64 pyfloat breakdown
| Info64

type_synonym outcome64 = "(py_exn + response64) \<times> state64"

fun dict_add1_64 :: "(text_key64 \<times> int) list \<Rightarrow> text_key64 \<Rightarrow> (text_key64 \<times> int) list" where
  "dict_add1_64 [] k = []"
| "dict_add1_64 ((k', v) # kvs) k =
     (if k' = k then (k', v + 1) # kvs else (k', v) # dict_add1_64 kvs k)"

definition insert_money64 :: "pyfloat field \<Rightarrow> state64 \<Rightarrow> outcome64" where
  "insert_money64 amount_field st =
     (case amount_field of
        Absent \<Rightarrow> (Inl (Py BadRequestKeyError), st)
      | Malformed \<Rightarrow> (Inl (Py ValueError), st)
      | Value amount \<Rightarrow>
          (case client_session st of
             None \<Rightarrow> (Inl (Py KeyError), st)
           | Some s \<Rightarrow>
               (let s1 = s\<lparr>inserted_money64 := f_add (inserted_money64 s) amount\<rparr>;
                    denom_key = TextFloat amount;
                    s2 = (if denom_key \<in> fst ` set (denominations_inserted64 s1)
                          then s1\<lparr>denominations_inserted64 :=
                                    dict_add1_64 (denominations_inserted64 s1) denom_key\<rparr>
                          else s1)
                in (Inr (Inserted64 (py_round2_64 (inserted_money64 s2)) amount),
                    st\<lparr>client_session := Some s2\<rparr>))))"

definition purchase64 :: "database \<Rightarrow> int field \<Rightarrow> int field \<Rightarrow> state64 \<Rightarrow> outcome64" where
  "purchase64 db product_id_field quantity_field st =
     (case product_id_field of
        Absent \<Rightarrow> (Inl (Py BadRequestKeyError), st)
      | Malformed \<Rightarrow> (Inr (Error400_64 InvalidInput64), st)
      | Value product_id \<Rightarrow>
     (case quantity_field of
        Absent \<Rightarrow> (Inl (Py BadRequestKeyError), st)
      | Malformed \<Rightarrow> (Inr (Error400_64 InvalidInput64), st)
      | Value qty \<Rightarrow>
     (if \<not> accepts_id db product_id then (Inl DatabaseError, st)
      else
     (case products64 st product_id of
        None \<Rightarrow> (Inr (Error400_64 InvalidProduct64), st)
      | Some p \<Rightarrow>
          if p_quantity p < qty
          then (Inr (Error400_64 (InsufficientStock64 (p_quantity p))), st)
          else
     (case int_to_float qty of
        Inl e \<Rightarrow> (Inl e, st)
      | Inr float_qty \<Rightarrow>
          (let total_cost = f_mul (p_price p) float_qty
           in case client_session st of
                None \<Rightarrow> (Inl (Py KeyError), st)
              | Some s \<Rightarrow>
                  if f_lt (inserted_money64 s) total_cost
                  then (Inr (Error400_64 (InsufficientFunds64 total_cost)), st)
                  else
                    (let p' = p\<lparr>p_quantity := p_quantity p - qty\<rparr>;
                         purchase_item =
                           \<lparr>line_product_id = product_id, line_name = p_name p,
                            line_quantity = qty, line_price = p_price p,
                            line_total = total_cost\<rparr>;
                         s' = s\<lparr>inserted_money64 := f_sub (inserted_money64 s) total_cost,
                                current_transaction64 :=
                                  current_transaction64 s @ [purchase_item]\<rparr>
                     in if accepts_quantity db (p_quantity p')
                        then (Inr (Purchased64 qty (p_name p)
                                     (py_round2_64 (inserted_money64 s')) (p_quantity p')),
                              st\<lparr>products64 := (products64 st)(product_id \<mapsto> p'),
                                 client_session := Some s'\<rparr>)
                        else (Inl DatabaseError, st\<lparr>client_session := Some s'\<rparr>))))))))"

fun py_sum64 :: "pyfloat \<Rightarrow> (text_key64 \<times> int) list \<Rightarrow> py_exn + pyfloat" where
  "py_sum64 acc [] = Inr acc"
| "py_sum64 acc ((denom, count) # kvs) =
     (case int_to_float count of
        Inl e \<Rightarrow> Inl e
      | Inr c \<Rightarrow> py_sum64 (f_add acc (f_mul (py_float64 denom) c)) kvs)"

definition log_entry64 ::
  "string \<times> string \<Rightarrow> breakdown \<Rightarrow> session64 \<Rightarrow> py_exn + transaction_log64" where
  "log_entry64 now change_breakdown s =
     (case py_sum64 (Fin 0) (denominations_inserted64 s) of
        Inl e \<Rightarrow> Inl e
      | Inr total_inserted \<Rightarrow>
          Inr \<lparr>log_date64 = fst now,
               log_time64 = snd now,
               amount_inserted_notes64 =
                 filter (\<lambda>(k, v). f_le (Fin 1) (py_float64 k) \<and> 0 < v) (denominations_inserted64 s),
               amount_inserted_coins64 =
                 filter (\<lambda>(k, v). f_lt (py_float64 k) (Fin 1) \<and> 0 < v) (denominations_inserted64 s),
               change_returned_notes64 =
                 filter (\<lambda>(k, v). 1 \<le> num_real k \<and> 0 < v) change_breakdown,
               change_returned_coins64 =
                 filter (\<lambda>(k, v). num_real k < 1 \<and> 0 < v) change_breakdown,
               total_amount64 = total_inserted,
               change_amount64 = inserted_money64 s,
               products_purchased64 =
                 map (\<lambda>item. (line_quantity item, line_name item)) (current_transaction64 s)\<rparr>)"

definition log_transaction64 ::
  "database \<Rightarrow> string \<times> string \<Rightarrow> breakdown \<Rightarrow> session64 \<Rightarrow> state64 \<Rightarrow> py_exn + state64" where
  "log_transaction64 db now change_breakdown s st =
     (case log_entry64 now change_breakdown s of
        Inl e \<Rightarrow> Inl e
      | Inr row \<Rightarrow>
          if accepts_log db row
          then Inr (st\<lparr>transaction_logs64 := transaction_logs64 st @ [row]\<rparr>)
          else Inl DatabaseError)"

definition return_change64 :: "database \<Rightarrow> string \<times> string \<Rightarrow> state64 \<Rightarrow> outcome64" where
  "return_change64 db now st =
     (case client_session st of
        None \<Rightarrow> (Inl (Py KeyError), st)
      | Some s \<Rightarrow>
          if f_lt (Fin 0) (inserted_money64 s) then
            (case calculate_change64 (inserted_money64 s) of
               Inl e \<Rightarrow> (Inl e, st)
             | Inr change_breakdown \<Rightarrow>
            (case log_transaction64 db now change_breakdown s st of
               Inl e \<Rightarrow> (Inl e, st)
             | Inr st1 \<Rightarrow>
                 (Inr (ChangeReturned64 (inserted_money64 s) change_breakdown),
                  st1\<lparr>client_session := Some initial_session64\<rparr>)))
          else
            (if current_transaction64 s \<noteq> [] then
               (case log_transaction64 db now [] s st of
                  Inl e \<Rightarrow> (Inl e, st)
                | Inr st1 \<Rightarrow> (Inr Info64, st1\<lparr>client_session := Some initial_session64\<rparr>))
             else (Inr Info64, st\<lparr>client_session := Some initial_session64\<rparr>)))"

definition seventy_state64 :: state64 where
  "seventy_state64 =
     snd (insert_money64 (Value (Fin 20))
            (snd (insert_money64 (Value (Fin 50)) fresh_state64)))"




section \<open>Properties of the change calculator\<close>

lemma denominations_sorted:
  "sorted_reverse (NOTES @ COINS) =
     [PyInt 100, PyInt 50, PyInt 25, PyInt 20, PyInt 10, PyInt 5, PyInt 1,
      PyFloat (1 / 2), PyFloat (1 / 4), PyFloat (1 / 10), PyFloat (1 / 20)]"
  by (simp add: sorted_reverse_def NOTES_def COINS_def)

lemma round_half_even_of_int: "round_half_even (of_int k) = k"
  by (simp add: round_half_even_def)

lemma py_round2_grid: "py_round2 (of_int k / 100) = of_int k / 100"
  by (simp add: py_round2_def round_half_even_of_int)

lemma bd_keys_simps: "bd_keys [] = {}" "bd_keys (p # bd) = insert (num_val (fst p)) (bd_keys bd)"
  "bd_keys (bd @ bd') = bd_keys bd \<union> bd_keys bd'"
  by (auto simp: bd_keys_def)

lemma dict_set_fresh: "num_val k \<notin> bd_keys bd \<Longrightarrow> dict_set bd k v = bd @ [(k, v)]"
  by (induction bd) (auto simp: bd_keys_def)

lemma breakdown_total_snoc:
  "breakdown_total (bd @ [(k, v)]) = breakdown_total bd + num_val k * of_int v"
  by (simp add: breakdown_total_def)

lemma py_int_quotient:
  assumes "0 < m" "0 \<le> k"
  shows "py_int (of_int k / of_int m) = k div m"
proof -
  have "(0::real) \<le> of_int k / of_int m" using assms by simp
  then show ?thesis by (simp add: py_int_def floor_divide_of_int_eq)
qed

lemma grid20_count:
  assumes "0 < m" "0 \<le> k" "num_val d = of_int m / 20"
  shows "py_int ((of_int k / 20) / num_val d) = k div m"
proof -
  have "(of_int k / 20) / num_val d = (of_int k / of_int m :: real)"
    unfolding assms(3) by simp
  then show ?thesis by (simp only: py_int_quotient[OF assms(1,2)])
qed

lemma grid20_rest:
  assumes "num_val d = of_int m / 20"
  shows "py_round2 (of_int k / 20 - of_int (k div m) * num_val d) = of_int (k mod m) / 20"
proof -
  have "k mod m = k - (k div m) * m" by (simp add: minus_div_mult_eq_mod)
  then have "(of_int (k mod m) :: real) = of_int k - of_int (k div m) * of_int m"
    by simp
  then have "of_int k / 20 - of_int (k div m) * num_val d = (of_int (5 * (k mod m)) / 100 :: real)"
    using assms by simp
  then have "py_round2 (of_int k / 20 - of_int (k div m) * num_val d) = of_int (5 * (k mod m)) / 100"
    by (simp only: py_round2_grid)
  also have "\<dots> = of_int (k mod m) / 20" by simp
  finally show ?thesis .
qed

lemma change_loop_grid20:
  assumes "\<forall>d\<in>set ds. 0 < num_val d \<and> 20 * num_val d \<in> \<int>" "0 \<le> k"
    "distinct (map num_val ds)" "num_val ` set ds \<inter> bd_keys bd = {}"
  shows "\<exists>k' bd'. change_loop ds (bd, of_int k / 20) = (bd', of_int k' / 20) \<and> 0 \<le> k' \<and> k' \<le> k
           \<and> (\<forall>d\<in>set ds. k' < 20 * num_val d)
           \<and> breakdown_total bd' + of_int k' / 20 = breakdown_total bd + of_int k / 20"
  using assms
proof (induction ds arbitrary: bd k)
  case Nil
  then show ?case by auto
next
  case (Cons d ds)
  from Cons.prems(1) have "0 < num_val d" "20 * num_val d \<in> \<int>" by simp_all
  then obtain m :: int where m: "0 < m" "num_val d = of_int m / 20"
    by (auto elim!: Ints_cases) (metis mult.commute)
  have rest: "\<forall>d\<in>set ds. 0 < num_val d \<and> 20 * num_val d \<in> \<int>" using Cons.prems(1) by simp
  have dist: "distinct (map num_val ds)" using Cons.prems(3) by simp
  show ?case
  proof (cases "num_val d \<le> of_int k / 20")
    case True
    let ?c = "k div m"
    have fresh: "num_val d \<notin> bd_keys bd" using Cons.prems(4) by auto
    have disj: "num_val ` set ds \<inter> bd_keys (bd @ [(d, ?c)]) = {}"
      using Cons.prems(3,4) by (auto simp: bd_keys_simps)
    have k2: "0 \<le> k mod m" using m(1) by simp
    from Cons.IH[OF rest k2 dist disj] obtain k' bd' where
      IH: "change_loop ds (bd @ [(d, ?c)], of_int (k mod m) / 20) = (bd', of_int k' / 20)"
        "0 \<le> k'" "k' \<le> k mod m" "\<forall>d\<in>set ds. k' < 20 * num_val d"
        "breakdown_total bd' + of_int k' / 20 = breakdown_total (bd @ [(d, ?c)]) + of_int (k mod m) / 20"
      by blast
    have "change_loop (d # ds) (bd, of_int k / 20) =
        change_loop ds (dict_set bd d (py_int (of_int k / 20 / num_val d)),
          py_round2 (of_int k / 20 - of_int (py_int (of_int k / 20 / num_val d)) * num_val d))"
      using True by (simp only: change_loop.simps Let_def if_True)
    also have "\<dots> = change_loop ds (bd @ [(d, ?c)], of_int (k mod m) / 20)"
      by (simp only: grid20_count[OF m(1) Cons.prems(2) m(2)] grid20_rest[OF m(2)]
            dict_set_fresh[OF fresh])
    finally have step: "change_loop (d # ds) (bd, of_int k / 20) = (bd', of_int k' / 20)"
      using IH(1) by simp
    have "k mod m < m" using m(1) by simp
    then have lt: "k' < m" using IH(3) by simp
    have "k mod m \<le> k" using Cons.prems(2) m(1) by (simp add: zmod_le_nonneg_dividend)
    then have le: "k' \<le> k" using IH(3) by simp
    have "(of_int (k mod m) :: real) = of_int k - of_int (k div m) * of_int m"
      by (simp add: minus_div_mult_eq_mod[symmetric])
    then have tot: "breakdown_total bd' + of_int k' / 20 = breakdown_total bd + of_int k / 20"
      using IH(5) m(2) by (simp add: breakdown_total_snoc field_simps)
    have "real_of_int k' < 20 * num_val d" using lt m(2) by simp
    with step IH(2,4) le tot show ?thesis by auto
  next
    case False
    have disj: "num_val ` set ds \<inter> bd_keys bd = {}" using Cons.prems(4) by auto
    from Cons.IH[OF rest Cons.prems(2) dist disj] obtain k' bd' where
      IH: "change_loop ds (bd, of_int k / 20) = (bd', of_int k' / 20)"
        "0 \<le> k'" "k' \<le> k" "\<forall>d\<in>set ds. k' < 20 * num_val d"
        "breakdown_total bd' + of_int k' / 20 = breakdown_total bd + of_int k / 20"
      by blast
    have step: "change_loop (d # ds) (bd, of_int k / 20) = (bd', of_int k' / 20)"
      using False IH(1) by simp
    have "real_of_int k' \<le> of_int k" using IH(3) by simp
    then have "real_of_int k' < 20 * num_val d" using False by simp
    with step IH show ?thesis by auto
  qed
qed

lemma denominations_grid20:
  "\<forall>d\<in>set (sorted_reverse (NOTES @ COINS)). 0 < num_val d \<and> 20 * num_val d \<in> \<int>"
  by (simp add: denominations_sorted)

lemma denominations_distinct: "distinct (map num_val (sorted_reverse (NOTES @ COINS)))"
  by (simp add: denominations_sorted)

lemma expressible_grid20:
  assumes "\<forall>d\<in>set ds. 0 \<le> num_val d \<and> 20 * num_val d \<in> \<int>"
  shows "\<exists>k\<ge>0. (\<Sum>(d, n) \<leftarrow> zip ds ns. num_val d * of_nat n) = of_int k / 20"
  using assms
proof (induction ds arbitrary: ns)
  case Nil
  then show ?case by (auto intro: exI[of _ 0])
next
  case (Cons d ds)
  show ?case
  proof (cases ns)
    case Nil
    then show ?thesis by (auto intro: exI[of _ 0])
  next
    case (Cons n ns')
    from Cons.prems have "0 \<le> num_val d" "20 * num_val d \<in> \<int>" by simp_all
    then obtain m :: int where m: "0 \<le> m" "20 * num_val d = of_int m"
      by (auto elim!: Ints_cases)
    from Cons.IH[of ns'] Cons.prems obtain k :: int where
      k: "0 \<le> k" "(\<Sum>(d, n) \<leftarrow> zip ds ns'. num_val d * of_nat n) = of_int k / 20"
      by auto
    have "num_val d = of_int m / 20" using m(2) by simp
    then have "(\<Sum>(d, n) \<leftarrow> zip (d # ds) ns. num_val d * of_nat n) = of_int (m * int n + k) / 20"
      using k(2) Cons by (simp add: field_simps)
    moreover have "0 \<le> m * int n + k" using m(1) k(1) by simp
    ultimately show ?thesis by blast
  qed
qed

lemma calculate_change_exact:
  assumes "0 \<le> k"
  shows "breakdown_total (calculate_change (of_int k / 20)) = of_int k / 20"
proof -
  from change_loop_grid20[OF denominations_grid20 assms denominations_distinct, of "[]"]
  obtain k' bd' where
    r: "change_loop (sorted_reverse (NOTES @ COINS)) ([], of_int k / 20) = (bd', of_int k' / 20)"
      "0 \<le> k'" "\<forall>d\<in>set (sorted_reverse (NOTES @ COINS)). k' < 20 * num_val d"
      "breakdown_total bd' + of_int k' / 20 = breakdown_total [] + of_int k / 20"
    by (auto simp: bd_keys_simps)
  from r(3) have "real_of_int k' < 1" by (simp add: denominations_sorted)
  with r(2) have "k' = 0" by simp
  with r(1,4) show ?thesis by (simp add: calculate_change_def breakdown_total_def)
qed

lemma seven_cents_not_on_grid: "(7 / 100 :: real) \<noteq> of_int k / 20"
proof
  assume "(7 / 100 :: real) = of_int k / 20"
  then have "(of_int (5 * k) :: real) = of_int 7" by simp
  then have "5 * k = 7" by (simp only: of_int_eq_iff)
  then show False by presburger
qed

text \<open>
  Claim C10. For some non-negative amount that is not a sum of the configured
  denominations, here 0.07, \<open>calculate_change\<close> returns a breakdown whose sum is strictly
  less than the amount: the residue 0.02, smaller than the smallest denomination 0.05,
  stays in \<open>remaining\<close> when the loop ends and is not part of what is returned.
\<close>

theorem calculate_change_drops_residue:
  "(0 :: real) \<le> 7 / 100
   \<and> (\<forall>ns. (7 / 100 :: real) \<noteq> (\<Sum>(d, n) \<leftarrow> zip (NOTES @ COINS) ns. num_val d * of_nat n))
   \<and> calculate_change (7 / 100) = [(PyFloat (1 / 20), 1)]
   \<and> breakdown_total (calculate_change (7 / 100)) < 7 / 100
   \<and> snd (change_loop (sorted_reverse (NOTES @ COINS)) ([], 7 / 100)) = 1 / 50"
proof -
  have grid: "\<forall>d\<in>set (NOTES @ COINS). 0 \<le> num_val d \<and> 20 * num_val d \<in> \<int>"
    by (simp add: NOTES_def COINS_def)
  have a: "\<forall>ns. (7 / 100 :: real) \<noteq> (\<Sum>(d, n) \<leftarrow> zip (NOTES @ COINS) ns. num_val d * of_nat n)"
  proof
    fix ns :: "nat list"
    from expressible_grid20[OF grid, of ns] obtain k :: int where
      "(\<Sum>(d, n) \<leftarrow> zip (NOTES @ COINS) ns. num_val d * of_nat n) = of_int k / 20" by blast
    then show "(7 / 100 :: real) \<noteq> (\<Sum>(d, n) \<leftarrow> zip (NOTES @ COINS) ns. num_val d * of_nat n)"
      using seven_cents_not_on_grid[of k] by simp
  qed
  have l: "change_loop (sorted_reverse (NOTES @ COINS)) ([], 7 / 100) = ([(PyFloat (1 / 20), 1)], 1 / 50)"
    by (simp add: denominations_sorted py_int_def py_round2_def round_half_even_def Let_def)
  then have c: "calculate_change (7 / 100) = [(PyFloat (1 / 20), 1)]"
    by (simp add: calculate_change_def)
  have t: "breakdown_total (calculate_change (7 / 100)) < 7 / 100"
    unfolding c by (simp add: breakdown_total_def)
  from a l c t show ?thesis by simp
qed

lemma py_int_positive:
  assumes "0 < d" "d \<le> r"
  shows "0 < py_int (r / d)"
proof -
  have "1 \<le> r / d" using assms by simp
  then have "1 \<le> \<lfloor>r / d\<rfloor>" by simp
  moreover have "0 \<le> r / d" using assms by simp
  ultimately show ?thesis by (simp add: py_int_def)
qed

lemma dict_set_positive:
  "\<forall>p\<in>set bd. 0 < snd p \<Longrightarrow> 0 < v \<Longrightarrow> \<forall>p\<in>set (dict_set bd k v). 0 < snd p"
  by (induction bd k v rule: dict_set.induct) simp_all

lemma change_loop_positive:
  assumes "\<forall>d\<in>set ds. 0 < num_val d" "\<forall>p\<in>set bd. 0 < snd p"
  shows "\<forall>p\<in>set (fst (change_loop ds (bd, r))). 0 < snd p"
  using assms
proof (induction ds arbitrary: bd r)
  case Nil
  then show ?case by simp
next
  case (Cons d ds)
  have pos: "\<forall>d\<in>set ds. 0 < num_val d" "0 < num_val d" using Cons.prems(1) by simp_all
  show ?case
  proof (cases "num_val d \<le> r")
    case True
    let ?c = "py_int (r / num_val d)"
    have "0 < ?c" using py_int_positive[OF pos(2) True] .
    then have "\<forall>p\<in>set (dict_set bd d ?c). 0 < snd p"
      by (rule dict_set_positive[OF Cons.prems(2)])
    from Cons.IH[OF pos(1) this, of "py_round2 (r - of_int ?c * num_val d)"] True
    show ?thesis by (simp only: change_loop.simps Let_def if_True)
  next
    case False
    with Cons.IH[OF pos(1) Cons.prems(2), of r] show ?thesis
      by (simp only: change_loop.simps if_False)
  qed
qed

lemma grid100_rest:
  assumes "num_val d = of_int m / 100"
  shows "py_round2 (of_int k / 100 - of_int c * num_val d) = of_int (k - c * m) / 100"
proof -
  have "of_int k / 100 - of_int c * num_val d = (of_int (k - c * m) / 100 :: real)"
    using assms by simp
  then show ?thesis by (simp only: py_round2_grid)
qed

lemma loops_agree_grid100:
  assumes "\<forall>d\<in>set ds. 0 < num_val d \<and> 100 * num_val d \<in> \<int>" "0 \<le> k"
  shows "change_loop ds (bd, of_int k / 100) = spec_loop ds (bd, of_int k / 100)"
  using assms
proof (induction ds arbitrary: bd k)
  case Nil
  then show ?case by simp
next
  case (Cons d ds)
  from Cons.prems(1) have dpos: "0 < num_val d" and "100 * num_val d \<in> \<int>" by simp_all
  then obtain m :: int where m: "0 < m" "num_val d = of_int m / 100"
    by (auto elim!: Ints_cases) (metis mult.commute)
  have rest: "\<forall>d\<in>set ds. 0 < num_val d \<and> 100 * num_val d \<in> \<int>" using Cons.prems(1) by simp
  have q: "of_int k / 100 / num_val d = (of_int k / of_int m :: real)"
    unfolding m(2) by simp
  have fl: "\<lfloor>of_int k / 100 / num_val d\<rfloor> = k div m"
    by (simp only: q floor_divide_of_int_eq)
  show ?case
  proof (cases "num_val d \<le> of_int k / 100")
    case True
    then have "m \<le> k" using m(2) by simp
    then have cpos: "0 < k div m" using m(1) by (simp add: pos_imp_zdiv_pos_iff)
    have "(0::real) \<le> of_int k / 100 / num_val d" using dpos Cons.prems(2) by simp
    then have pi: "py_int (of_int k / 100 / num_val d) = k div m"
      by (simp only: py_int_def if_True fl)
    have k2: "0 \<le> k - (k div m) * m"
      using m(1) by (simp add: minus_div_mult_eq_mod)
    have "change_loop (d # ds) (bd, of_int k / 100) =
        change_loop ds (dict_set bd d (k div m), of_int (k - (k div m) * m) / 100)"
      using True by (simp only: change_loop.simps Let_def if_True pi grid100_rest[OF m(2)])
    also have "\<dots> = spec_loop ds (dict_set bd d (k div m), of_int (k - (k div m) * m) / 100)"
      by (rule Cons.IH[OF rest k2])
    also have "\<dots> = spec_loop (d # ds) (bd, of_int k / 100)"
      using cpos by (simp only: spec_loop.simps Let_def fl if_True grid100_rest[OF m(2)])
    finally show ?thesis .
  next
    case False
    then have "k < m" using m(2) by simp
    then have c0: "k div m = 0" using Cons.prems(2) by simp
    have z: "k - 0 * m = k" by simp
    have "change_loop (d # ds) (bd, of_int k / 100) = change_loop ds (bd, of_int k / 100)"
      using False by (simp only: change_loop.simps if_False)
    also have "\<dots> = spec_loop ds (bd, of_int k / 100)"
      by (rule Cons.IH[OF rest Cons.prems(2)])
    also have "\<dots> = spec_loop (d # ds) (bd, of_int k / 100)"
      by (simp only: spec_loop.simps Let_def fl c0 less_irrefl if_False grid100_rest[OF m(2)] z)
    finally show ?thesis .
  qed
qed

lemma spec_loop_skip:
  assumes "0 \<le> r" "r < num_val d"
  shows "spec_loop (d # ds) (bd, r) = spec_loop ds (bd, py_round2 r)"
proof -
  have "0 < num_val d" using assms by simp
  then have "0 \<le> r / num_val d" "r / num_val d < 1" using assms by simp_all
  then have "\<lfloor>r / num_val d\<rfloor> = 0" by linarith
  then show ?thesis by (simp add: Let_def)
qed

lemma py_round2_examples:
  "py_round2 (23 / 500) = 1 / 20" "py_round2 (1 / 20) = 1 / 20" "py_round2 0 = 0"
  by (simp_all add: py_round2_def round_half_even_def Let_def)

lemma denominations_grid100:
  "\<forall>d\<in>set (sorted_reverse (NOTES @ COINS)). 0 < num_val d \<and> 100 * num_val d \<in> \<int>"
  by (simp add: denominations_sorted)

section \<open>Properties of the session ledger\<close>

lemma session_fresh_state: "session fresh_state = Some initial_session"
  by (simp add: fresh_state_def index_def)

lemma keys_initial_session:
  "map fst (denominations_inserted initial_session) = map py_str (NOTES @ COINS)"
  by (simp add: initial_session_def zero_counts_def comp_def)

lemma ledger_invariant_initial: "ledger_invariant initial_session"
  by (simp add: ledger_invariant_def counters_total_def initial_session_def zero_counts_def
        NOTES_def COINS_def)

lemma dict_add1_keys: "map fst (dict_add1 kvs k) = map fst kvs"
  by (induction kvs k rule: dict_add1.induct) simp_all

lemma dict_add1_total:
  "k \<in> fst ` set kvs \<Longrightarrow>
   (\<Sum>(denom, count) \<leftarrow> dict_add1 kvs k. py_float denom * of_int count) =
   (\<Sum>(denom, count) \<leftarrow> kvs. py_float denom * of_int count) + py_float k"
  by (induction kvs k rule: dict_add1.induct) (auto simp: algebra_simps)

lemma coin_text_is_key:
  assumes "PyFloat amount \<in> set COINS"
  shows "StrFloat amount \<in> set (map py_str (NOTES @ COINS))"
proof -
  have "py_str (PyFloat amount) \<in> py_str ` set COINS"
    using assms by (rule imageI)
  then show ?thesis by simp
qed

lemma key_is_denomination:
  assumes "StrFloat amount \<in> set (map py_str (NOTES @ COINS))"
  shows "amount \<in> num_val ` set (NOTES @ COINS)"
proof -
  from assms have "StrFloat amount \<in> py_str ` set (NOTES @ COINS)"
    by (simp only: set_map)
  then obtain d where d: "d \<in> set (NOTES @ COINS)" "py_str d = StrFloat amount"
    by (elim imageE) simp
  have "d = PyFloat amount" using d(2) by (cases d) simp_all
  with d(1) have "num_val (PyFloat amount) \<in> num_val ` set (NOTES @ COINS)"
    by (intro imageI) simp
  then show ?thesis by simp
qed

lemma insert_money_counted:
  assumes "session st = Some s" "StrFloat amount \<in> fst ` set (denominations_inserted s)"
  shows "insert_money (Value amount) st =
     Inr (Inserted (py_round2 (inserted_money s + amount)) amount,
          st\<lparr>session := Some (s\<lparr>inserted_money := inserted_money s + amount,
                 denominations_inserted := dict_add1 (denominations_inserted s) (StrFloat amount)\<rparr>)\<rparr>)"
  using assms by (simp add: insert_money_def Let_def)

lemma insert_money_uncounted:
  assumes "session st = Some s" "StrFloat amount \<notin> fst ` set (denominations_inserted s)"
  shows "insert_money (Value amount) st =
     Inr (Inserted (py_round2 (inserted_money s + amount)) amount,
          st\<lparr>session := Some (s\<lparr>inserted_money := inserted_money s + amount\<rparr>)\<rparr>)"
  using assms by (simp add: insert_money_def Let_def)

section \<open>Properties of purchase\<close>

lemma purchase_success:
  assumes "session st = Some s" "products st i = Some p"
    and "\<not> quantity p < q" "\<not> inserted_money s < price p * of_int q"
  shows "purchase (Value i) (Value q) st =
     Inr (Purchased q (name p) (py_round2 (inserted_money s - price p * of_int q)) (quantity p - q),
          st\<lparr>products := (products st)(i \<mapsto> p\<lparr>quantity := quantity p - q\<rparr>),
             session := Some (s\<lparr>inserted_money := inserted_money s - price p * of_int q,
               current_transaction := current_transaction s @
                 [\<lparr>item_product_id = i, item_name = name p, item_quantity = q,
                   item_price = price p, item_total = price p * of_int q\<rparr>]\<rparr>)\<rparr>)"
  using assms by (simp add: purchase_def Let_def)


lemma products_fresh_state: "products fresh_state = sample_products"
  by (simp add: fresh_state_def index_def)

lemma sample_products_values:
  "sample_products 1 = Some \<lparr>name = ''sando'', kind = ''cake'', price = 15, quantity = 10\<rparr>"
  "sample_products 4 = Some \<lparr>name = ''Coca Cola'', kind = ''drink'', price = 50, quantity = 15\<rparr>"
  "sample_products 7 = None"
  by (simp_all add: sample_products_def)




section \<open>Properties of return\_change\<close>

lemma initial_session_counts:
  "inserted_money initial_session = 0"
  "current_transaction initial_session = []"
  "\<forall>c\<in>snd ` set (denominations_inserted initial_session). c = 0"
  by (simp_all add: initial_session_def zero_counts_def NOTES_def COINS_def)

lemma return_change_positive:
  assumes "session st = Some s" "0 < inserted_money s"
  shows "return_change now st =
     Inr (ChangeReturned (inserted_money s) (calculate_change (inserted_money s)),
          st\<lparr>transaction_logs := transaction_logs st @
                 [log_entry now (calculate_change (inserted_money s)) s],
             session := Some initial_session\<rparr>)"
  using assms by (simp add: return_change_def log_transaction_def Let_def)

lemma return_change_purchases:
  assumes "session st = Some s" "\<not> 0 < inserted_money s" "current_transaction s \<noteq> []"
  shows "return_change now st =
     Inr (Info, st\<lparr>transaction_logs := transaction_logs st @ [log_entry now [] s],
                  session := Some initial_session\<rparr>)"
  using assms by (simp add: return_change_def log_transaction_def Let_def)

lemma return_change_nothing:
  assumes "session st = Some s" "\<not> 0 < inserted_money s" "current_transaction s = []"
  shows "return_change now st = Inr (Info, st\<lparr>session := Some initial_session\<rparr>)"
  using assms by (simp add: return_change_def Let_def)

lemma calculate_change_positive: "\<forall>p\<in>set (calculate_change a). 0 < snd p"
proof -
  have "\<forall>d\<in>set (sorted_reverse (NOTES @ COINS)). 0 < num_val d"
    using denominations_grid100 by blast
  from change_loop_positive[OF this, of "[]" a] show ?thesis
    by (simp add: calculate_change_def)
qed

lemma log_entry_change:
  "set (change_returned_notes (log_entry now (calculate_change a) s))
     \<union> set (change_returned_coins (log_entry now (calculate_change a) s))
   = set (calculate_change a)"
  using calculate_change_positive[of a] by (auto simp: log_entry_def)

lemma log_entry_inserted:
  "set (amount_inserted_notes (log_entry now bd s)) \<union> set (amount_inserted_coins (log_entry now bd s))
   = {kv \<in> set (denominations_inserted s). 0 < snd kv}"
  by (auto simp: log_entry_def)

text \<open>
  Claim C7. When \<open>return_change\<close> is called with \<open>insertedMoney = 0\<close>: if the session's
  purchase list is not empty, one transaction log entry with an empty change breakdown is
  added; if it is empty, no log entry is added; in both cases the response is the
  informational acknowledgment only.
\<close>

theorem return_change_no_money:
  assumes "session st = Some s" "inserted_money s = 0"
  shows "(current_transaction s \<noteq> [] \<longrightarrow>
            (\<exists>e. return_change now st =
                   Inr (Info, st\<lparr>transaction_logs := transaction_logs st @ [e],
                                session := Some initial_session\<rparr>)
               \<and> change_returned_notes e = [] \<and> change_returned_coins e = []))
       \<and> (current_transaction s = [] \<longrightarrow>
            return_change now st = Inr (Info, st\<lparr>session := Some initial_session\<rparr>)
            \<and> transaction_logs (state_after st (return_change now st)) = transaction_logs st)"
proof (intro conjI impI)
  have z: "\<not> 0 < inserted_money s" using assms(2) by simp
  {
    assume n: "current_transaction s \<noteq> []"
    have "change_returned_notes (log_entry now [] s) = []"
      "change_returned_coins (log_entry now [] s) = []"
      by (simp_all add: log_entry_def)
    with return_change_purchases[OF assms(1) z n]
    show "\<exists>e. return_change now st =
                   Inr (Info, st\<lparr>transaction_logs := transaction_logs st @ [e],
                                session := Some initial_session\<rparr>)
               \<and> change_returned_notes e = [] \<and> change_returned_coins e = []"
      by blast
  }
  {
    assume e: "current_transaction s = []"
    show "return_change now st = Inr (Info, st\<lparr>session := Some initial_session\<rparr>)"
      by (rule return_change_nothing[OF assms(1) z e])
    then show "transaction_logs (state_after st (return_change now st)) = transaction_logs st"
      by (simp add: state_after_def)
  }
qed

lemma exact_purchase_state_session:
  "session exact_purchase_state =
     Some (initial_session\<lparr>current_transaction :=
       [\<lparr>item_product_id = 1, item_name = ''sando'', item_quantity = 1,
         item_price = 15, item_total = 15\<rparr>]\<rparr>)"
proof -
  have k: "StrFloat 15 \<notin> fst ` set (denominations_inserted initial_session)"
    by (simp add: initial_session_def zero_counts_def NOTES_def COINS_def)
  have z: "inserted_money initial_session = 0" "current_transaction initial_session = []"
    by (simp_all add: initial_session_def)
  let ?st = "fresh_state\<lparr>session := Some (initial_session\<lparr>inserted_money := 15\<rparr>)\<rparr>"
  have 1: "state_after fresh_state (insert_money (Value 15) fresh_state) = ?st"
    using insert_money_uncounted[OF session_fresh_state k] z by (simp add: state_after_def)
  have "purchase (Value 1) (Value 1) ?st =
      Inr (Purchased 1 ''sando'' (py_round2 0) 9,
        ?st\<lparr>products := (products ?st)(1 \<mapsto> \<lparr>name = ''sando'', kind = ''cake'', price = 15, quantity = 9\<rparr>),
          session := Some (initial_session\<lparr>inserted_money := 0, current_transaction :=
            [\<lparr>item_product_id = 1, item_name = ''sando'', item_quantity = 1,
              item_price = 15, item_total = 15\<rparr>]\<rparr>)\<rparr>)"
    using purchase_success[of ?st "initial_session\<lparr>inserted_money := 15\<rparr>" 1
        "\<lparr>name = ''sando'', kind = ''cake'', price = 15, quantity = 10\<rparr>" 1]
    by (simp add: products_fresh_state sample_products_values z)
  then show ?thesis
    unfolding exact_purchase_state_def 1 by (simp add: state_after_def initial_session_def)
qed

theorem return_change_no_money_witness:
  "(\<exists>e. return_change (''2024-01-01'', ''12:00:00'') exact_purchase_state =
           Inr (Info, exact_purchase_state
             \<lparr>transaction_logs := transaction_logs exact_purchase_state @ [e],
              session := Some initial_session\<rparr>)
       \<and> change_returned_notes e = [] \<and> change_returned_coins e = [])
   \<and> return_change (''2024-01-01'', ''12:00:00'') fresh_state =
       Inr (Info, fresh_state\<lparr>session := Some initial_session\<rparr>)"
proof -
  have a: "inserted_money (initial_session\<lparr>current_transaction :=
       [\<lparr>item_product_id = 1, item_name = ''sando'', item_quantity = 1,
         item_price = 15, item_total = 15\<rparr>]\<rparr>) = 0"
    by (simp add: initial_session_def)
  have b: "inserted_money initial_session = 0" "current_transaction initial_session = []"
    by (simp_all add: initial_session_def)
  from return_change_no_money[OF exact_purchase_state_session a, of "(''2024-01-01'', ''12:00:00'')"]
  have 1: "\<exists>e. return_change (''2024-01-01'', ''12:00:00'') exact_purchase_state =
           Inr (Info, exact_purchase_state
             \<lparr>transaction_logs := transaction_logs exact_purchase_state @ [e],
              session := Some initial_session\<rparr>)
       \<and> change_returned_notes e = [] \<and> change_returned_coins e = []"
    by simp
  from return_change_no_money[OF session_fresh_state b(1), of "(''2024-01-01'', ''12:00:00'')"] b(2)
  have 2: "return_change (''2024-01-01'', ''12:00:00'') fresh_state =
       Inr (Info, fresh_state\<lparr>session := Some initial_session\<rparr>)"
    by simp
  from 1 2 show ?thesis by (rule conjI)
qed

text \<open>
  Claim C8. A malformed amount field is not recovered by \<open>insert_money\<close>: the
  \<open>ValueError\<close> of \<open>float\<close> leaves the view function, where \<open>purchase\<close> catches the
  same error of \<open>int\<close> and answers with its error payload.
\<close>

theorem insert_money_malformed_uncaught:
  "insert_money Malformed st = Inl ValueError
   \<and> purchase Malformed qf st = Inr (Error400 InvalidInput, st)"
  by (simp add: insert_money_def purchase_def)

section \<open>Properties of the binary64 reading\<close>

lemma rhe_cases:
  "round_half_even x = \<lfloor>x\<rfloor> \<and> x - of_int \<lfloor>x\<rfloor> \<le> 1 / 2
   \<or> round_half_even x = \<lfloor>x\<rfloor> + 1 \<and> 1 / 2 \<le> x - of_int \<lfloor>x\<rfloor>"
  by (auto simp: round_half_even_def Let_def)

lemma rhe_error: "\<bar>of_int (round_half_even x) - x\<bar> \<le> 1 / 2"
proof -
  have "of_int \<lfloor>x\<rfloor> \<le> x" "x < of_int \<lfloor>x\<rfloor> + 1" by linarith+
  with rhe_cases[of x] show ?thesis by auto
qed

lemma rhe_near:
  assumes "\<bar>x - of_int n\<bar> < 1 / 2"
  shows "round_half_even x = n"
proof -
  have "\<bar>of_int (round_half_even x) - x\<bar> \<le> 1 / 2" by (rule rhe_error)
  with assms have "\<bar>(of_int (round_half_even x) :: real) - of_int n\<bar> < 1" by linarith
  then have "\<bar>round_half_even x - n\<bar> < 1"
    by (metis of_int_1 of_int_abs of_int_diff of_int_less_iff)
  then show ?thesis by simp
qed

lemma rhe_mono:
  assumes "x \<le> y"
  shows "round_half_even x \<le> round_half_even y"
proof (rule ccontr)
  assume "\<not> round_half_even x \<le> round_half_even y"
  then have g: "round_half_even y + 1 \<le> round_half_even x" by simp
  from assms have fl: "\<lfloor>x\<rfloor> \<le> \<lfloor>y\<rfloor>" by (rule floor_mono)
  from rhe_cases[of x] rhe_cases[of y] g fl
  have c: "round_half_even x = \<lfloor>x\<rfloor> + 1" "round_half_even y = \<lfloor>y\<rfloor>" "\<lfloor>x\<rfloor> = \<lfloor>y\<rfloor>"
    "1 / 2 \<le> x - of_int \<lfloor>x\<rfloor>" "y - of_int \<lfloor>y\<rfloor> \<le> 1 / 2"
    by auto
  with assms have "x = y" by simp
  with c(1,2) show False by simp
qed

lemma bitlen_upper: "0 < n \<Longrightarrow> n < 2 ^ nat (bitlen n)"
  using bitlen_bounds[of n] by simp

lemma bitlen_lower: "0 < n \<Longrightarrow> 2 ^ nat (bitlen n - 1) \<le> n"
  using bitlen_bounds[of n] by simp

lemma bitlen_pos: "0 < n \<Longrightarrow> 0 < bitlen n"
  using bitlen_eq_zero_iff[of n] bitlen_nonneg[of n] by linarith

lemma shift_upper:
  assumes "0 \<le> y"
  shows "y < 2 ^ (53 + shift64 y)"
proof (cases "0 < \<lfloor>y\<rfloor>")
  case False
  then have "y < 1" by linarith
  also have "(1::real) \<le> 2 ^ (53 + shift64 y)" by simp
  finally show ?thesis .
next
  case True
  let ?n = "\<lfloor>y\<rfloor>" and ?B = "bitlen \<lfloor>y\<rfloor>"
  have "?n < 2 ^ nat ?B" using bitlen_upper[OF True] .
  then have "?n + 1 \<le> 2 ^ nat ?B" by simp
  then have "(of_int (?n + 1) :: real) \<le> of_int (2 ^ nat ?B)" by (simp only: of_int_le_iff)
  then have "y < 2 ^ nat ?B" by (simp add: floor_less_iff) linarith
  also have "(2::real) ^ nat ?B \<le> 2 ^ (53 + shift64 y)"
    by (rule power_increasing) (simp_all add: shift64_def)
  finally show ?thesis .
qed

lemma shift_lower:
  assumes "0 < shift64 y"
  shows "2 ^ (52 + shift64 y) \<le> y"
proof -
  let ?n = "\<lfloor>y\<rfloor>" and ?B = "bitlen \<lfloor>y\<rfloor>"
  from assms have B: "54 \<le> ?B" by (simp add: shift64_def)
  then have pos: "0 < ?n" using bitlen_eq_zero_iff[of ?n] by (cases "0 < ?n") auto
  have e: "nat (?B - 1) = 52 + shift64 y" using B by (simp add: shift64_def)
  have "2 ^ nat (?B - 1) \<le> ?n" using bitlen_lower[OF pos] .
  then have "(of_int (2 ^ nat (?B - 1)) :: real) \<le> of_int ?n" by (simp only: of_int_le_iff)
  then have "(2::real) ^ nat (?B - 1) \<le> of_int ?n" by simp
  also have "of_int ?n \<le> y" by simp
  finally show ?thesis by (simp only: e)
qed

lemma round_units_error:
  assumes "0 \<le> y"
  shows "\<bar>round_units y - y\<bar> \<le> y / 2 ^ 53 + 1 / 2"
proof -
  let ?s = "shift64 y"
  have "\<bar>of_int (round_half_even (y / 2 ^ ?s)) - y / 2 ^ ?s\<bar> \<le> 1 / 2" by (rule rhe_error)
  then have "\<bar>of_int (round_half_even (y / 2 ^ ?s)) - y / 2 ^ ?s\<bar> * 2 ^ ?s \<le> 1 / 2 * 2 ^ ?s"
    by (rule mult_right_mono) simp
  moreover have "\<bar>of_int (round_half_even (y / 2 ^ ?s)) - y / 2 ^ ?s\<bar> * 2 ^ ?s =
      \<bar>round_units y - y\<bar>"
  proof -
    have "(of_int (round_half_even (y / 2 ^ ?s)) - y / 2 ^ ?s) * 2 ^ ?s = round_units y - y"
      by (simp add: round_units_def left_diff_distrib)
    then have "\<bar>round_units y - y\<bar> =
        \<bar>of_int (round_half_even (y / 2 ^ ?s)) - y / 2 ^ ?s\<bar> * \<bar>2 ^ ?s\<bar>"
      by (simp only: abs_mult[symmetric])
    then show ?thesis by simp
  qed
  ultimately have e: "\<bar>round_units y - y\<bar> \<le> 2 ^ ?s / 2" by simp
  show ?thesis
  proof (cases "?s = 0")
    case True
    with e assms show ?thesis by simp
  next
    case False
    then have "2 ^ (52 + ?s) \<le> y" using shift_lower[of y] by simp
    then have "(2::real) ^ ?s / 2 \<le> y / 2 ^ 53" by (simp add: power_add field_simps)
    with e show ?thesis by linarith
  qed
qed

lemma round_units_exact:
  assumes "0 \<le> n" "n < 2 ^ 53"
  shows "round_units (of_int n * 2 ^ k) = of_int n * 2 ^ k"
proof (cases "n = 0")
  case True
  then show ?thesis by (simp add: round_units_def round_half_even_of_int[of 0, simplified])
next
  case False
  with assms have pos: "0 < n" by simp
  let ?y = "of_int n * 2 ^ k :: real"
  have fl: "\<lfloor>?y\<rfloor> = n * 2 ^ k"
  proof -
    have "?y = of_int (n * 2 ^ k)" by simp
    then show ?thesis by (simp only: floor_of_int)
  qed
  have "bitlen n \<le> 53"
  proof (rule ccontr)
    assume "\<not> bitlen n \<le> 53"
    then have "53 \<le> nat (bitlen n - 1)" by simp
    then have "(2::int) ^ 53 \<le> 2 ^ nat (bitlen n - 1)" by (rule power_increasing) simp
    with bitlen_lower[OF pos] assms(2) show False by linarith
  qed
  define s where "s = shift64 ?y"
  have "bitlen n + int k - 53 \<le> int k" using \<open>bitlen n \<le> 53\<close> by simp
  then have "s \<le> k"
    unfolding s_def shift64_def fl bitlen_pow2[OF pos] by simp
  then obtain j where j: "k = s + j" using le_Suc_ex by blast
  have q: "of_int n * 2 ^ k / 2 ^ s = (of_int (n * 2 ^ j) :: real)"
    by (simp add: j power_add)
  have "round_units ?y = of_int (round_half_even (?y / 2 ^ s)) * 2 ^ s"
    by (simp add: round_units_def s_def)
  also have "\<dots> = of_int (n * 2 ^ j) * 2 ^ s"
    by (simp only: q round_half_even_of_int)
  also have "\<dots> = ?y" by (simp add: j power_add)
  finally show ?thesis .
qed

lemma round_units_mono:
  assumes "0 \<le> x" "x \<le> y"
  shows "round_units x \<le> round_units y"
proof -
  let ?sx = "shift64 x" and ?sy = "shift64 y"
  have y0: "0 \<le> y" using assms by simp
  consider "?sx = ?sy" | "?sx < ?sy" | "?sy < ?sx" by linarith
  then show ?thesis
  proof cases
    case 1
    have "x / 2 ^ ?sy \<le> y / 2 ^ ?sy" using assms(2) by (simp add: divide_right_mono)
    then have "round_half_even (x / 2 ^ ?sy) \<le> round_half_even (y / 2 ^ ?sy)" by (rule rhe_mono)
    then show ?thesis by (simp add: round_units_def 1)
  next
    case 2
    have "x / 2 ^ ?sx \<le> of_int (2 ^ 53)"
      using shift_upper[OF assms(1)] by (simp add: power_add field_simps)
    then have "round_half_even (x / 2 ^ ?sx) \<le> round_half_even (of_int (2 ^ 53))" by (rule rhe_mono)
    then have "round_half_even (x / 2 ^ ?sx) \<le> 2 ^ 53" by (simp only: round_half_even_of_int)
    then have "(of_int (round_half_even (x / 2 ^ ?sx)) :: real) \<le> of_int (2 ^ 53)"
      by (simp only: of_int_le_iff)
    then have "round_units x \<le> 2 ^ 53 * 2 ^ ?sx" by (simp add: round_units_def)
    also have "\<dots> = (2::real) ^ (53 + ?sx)" by (simp add: power_add)
    also have "\<dots> \<le> 2 ^ (52 + ?sy)" using 2 by (intro power_increasing) simp_all
    finally have a: "round_units x \<le> 2 ^ (52 + ?sy)" .
    have "0 < ?sy" using 2 by simp
    then have "2 ^ (52 + ?sy) \<le> y" by (rule shift_lower)
    then have "of_int (2 ^ 52) \<le> y / 2 ^ ?sy" by (simp add: power_add field_simps)
    then have "round_half_even (of_int (2 ^ 52)) \<le> round_half_even (y / 2 ^ ?sy)" by (rule rhe_mono)
    then have "2 ^ 52 \<le> round_half_even (y / 2 ^ ?sy)" by (simp only: round_half_even_of_int)
    then have "(of_int (2 ^ 52) :: real) \<le> of_int (round_half_even (y / 2 ^ ?sy))"
      by (simp only: of_int_le_iff)
    then have "(2::real) ^ 52 * 2 ^ ?sy \<le> round_units y" by (simp add: round_units_def)
    then have "(2::real) ^ (52 + ?sy) \<le> round_units y" by (simp add: power_add)
    with a show ?thesis by linarith
  next
    case 3
    then have "0 < ?sx" by simp
    then have "2 ^ (52 + ?sx) \<le> x" by (rule shift_lower)
    moreover have "(2::real) ^ (53 + ?sy) \<le> 2 ^ (52 + ?sx)" using 3 by (intro power_increasing) simp_all
    moreover have "y < 2 ^ (53 + ?sy)" using shift_upper[OF y0] .
    ultimately show ?thesis using assms(2) by linarith
  qed
qed

lemma shift_unique:
  assumes "2 ^ (52 + s) \<le> y" "y < 2 ^ (53 + s)"
  shows "shift64 y = s"
proof -
  have y0: "0 \<le> y" using assms(1) by (meson order_trans zero_le_numeral zero_le_power)
  have "(2::real) ^ (52 + s) < 2 ^ (53 + shift64 y)"
    using assms(1) shift_upper[OF y0] by linarith
  then have a: "s \<le> shift64 y" by simp
  show ?thesis
  proof (rule ccontr)
    assume "shift64 y \<noteq> s"
    with a have "0 < shift64 y" "s < shift64 y" by simp_all
    then have "(2::real) ^ (52 + shift64 y) < 2 ^ (53 + s)"
      using shift_lower[of y] assms(2) by linarith
    then have "shift64 y \<le> s" by simp
    with \<open>s < shift64 y\<close> show False by simp
  qed
qed

lemma round_scaled_error:
  assumes "0 \<le> a"
  shows "\<bar>round_scaled E a - a\<bar> \<le> a / 2 ^ 53 + 1 / (2 * 2 ^ E)"
proof -
  have "0 \<le> a * 2 ^ E" using assms by simp
  from round_units_error[OF this]
  have "\<bar>round_units (a * 2 ^ E) - a * 2 ^ E\<bar> / 2 ^ E \<le> (a * 2 ^ E / 2 ^ 53 + 1 / 2) / 2 ^ E"
    by (rule divide_right_mono) simp
  moreover have "\<bar>round_units (a * 2 ^ E) - a * 2 ^ E\<bar> / 2 ^ E = \<bar>round_scaled E a - a\<bar>"
  proof -
    have "(round_units (a * 2 ^ E) - a * 2 ^ E) / 2 ^ E = round_scaled E a - a"
      unfolding round_scaled_def by (simp add: diff_divide_distrib)
    then have "\<bar>round_scaled E a - a\<bar> = \<bar>round_units (a * 2 ^ E) - a * 2 ^ E\<bar> / \<bar>2 ^ E\<bar>"
      by (simp only: abs_divide[symmetric])
    then show ?thesis by simp
  qed
  moreover have "(a * 2 ^ E / 2 ^ 53 + 1 / 2) / 2 ^ E = a / 2 ^ 53 + 1 / (2 * 2 ^ E :: real)"
    by (simp add: add_divide_distrib)
  ultimately show ?thesis by simp
qed

lemma round_scaled_mono:
  assumes "0 \<le> a" "a \<le> b"
  shows "round_scaled E a \<le> round_scaled E b"
proof -
  have "0 \<le> a * 2 ^ E" "a * 2 ^ E \<le> b * 2 ^ E" using assms by simp_all
  from round_units_mono[OF this] show ?thesis
    unfolding round_scaled_def by (rule divide_right_mono) simp
qed

lemma round_scaled_exact:
  assumes "0 \<le> n" "n < 2 ^ 53"
  shows "round_scaled E (of_int n * 2 ^ k / 2 ^ E) = of_int n * 2 ^ k / 2 ^ E"
proof -
  have "of_int n * 2 ^ k / 2 ^ E * 2 ^ E = (of_int n * 2 ^ k :: real)" by simp
  then show ?thesis
    unfolding round_scaled_def by (simp only: round_units_exact[OF assms])
qed

lemma round_scaled_q_big:
  assumes "2 ^ (52 + j) \<le> a" "a < 2 ^ (53 + j)"
  shows "round_scaled E a = of_int (round_half_even (a / 2 ^ j)) * 2 ^ j"
proof -
  have "2 ^ (52 + j) * 2 ^ E \<le> a * 2 ^ E" "a * 2 ^ E < 2 ^ (53 + j) * 2 ^ E"
    using assms by simp_all
  then have "2 ^ (52 + (j + E)) \<le> a * 2 ^ E" "a * 2 ^ E < 2 ^ (53 + (j + E))"
    by (simp_all only: power_add mult.assoc)
  then have s: "shift64 (a * 2 ^ E) = j + E" by (rule shift_unique)
  have q: "a * 2 ^ E / 2 ^ (j + E) = a / 2 ^ j" by (simp add: power_add)
  have "round_scaled E a = of_int (round_half_even (a / 2 ^ j)) * 2 ^ (j + E) / 2 ^ E"
    unfolding round_scaled_def round_units_def s q ..
  also have "\<dots> = of_int (round_half_even (a / 2 ^ j)) * 2 ^ j" by (simp add: power_add)
  finally show ?thesis .
qed

lemma round_scaled_q_small:
  assumes "j \<le> E" "2 ^ 52 \<le> a * 2 ^ j" "a * 2 ^ j < 2 ^ 53"
  shows "round_scaled E a = of_int (round_half_even (a * 2 ^ j)) / 2 ^ j"
proof -
  obtain s where s: "E = s + j" using assms(1) by (metis add.commute le_Suc_ex)
  have y: "a * 2 ^ E = a * 2 ^ j * 2 ^ s" by (simp add: s power_add)
  have "2 ^ 52 * 2 ^ s \<le> a * 2 ^ j * 2 ^ s" "a * 2 ^ j * 2 ^ s < 2 ^ 53 * 2 ^ s"
    using assms(2,3) by simp_all
  then have "2 ^ (52 + s) \<le> a * 2 ^ E" "a * 2 ^ E < 2 ^ (53 + s)"
    by (simp_all only: y power_add)
  then have sh: "shift64 (a * 2 ^ E) = s" by (rule shift_unique)
  have q: "a * 2 ^ E / 2 ^ s = a * 2 ^ j" by (simp add: y)
  have "round_scaled E a = of_int (round_half_even (a * 2 ^ j)) * 2 ^ s / 2 ^ E"
    unfolding round_scaled_def round_units_def sh q ..
  also have "\<dots> = of_int (round_half_even (a * 2 ^ j)) / 2 ^ j"
    by (simp add: s power_add)
  finally show ?thesis .
qed

lemma round_scaled_0: "round_scaled E 0 = 0"
  using round_scaled_exact[of 0 E 0] by simp

lemma round_scaled_int:
  assumes "0 \<le> n" "n < 2 ^ 53"
  shows "round_scaled E (of_int n) = of_int n"
  using round_scaled_exact[OF assms, of E E] by simp

lemma round_scaled_pow2: "round_scaled E (2 ^ i) = 2 ^ i"
proof -
  have "(2::real) ^ i = of_int 1 * 2 ^ (i + E) / 2 ^ E" by (simp add: power_add)
  moreover have "round_scaled E (of_int 1 * 2 ^ (i + E) / 2 ^ E) = of_int 1 * 2 ^ (i + E) / 2 ^ E"
    by (rule round_scaled_exact) simp_all
  ultimately show ?thesis by simp
qed

lemma round_scaled_dyadic:
  assumes "0 \<le> n" "n < 2 ^ 53" "j \<le> E"
  shows "round_scaled E (of_int n / 2 ^ j) = of_int n / 2 ^ j"
proof -
  obtain s where s: "E = s + j" using assms(3) by (metis add.commute le_Suc_ex)
  have "of_int n / 2 ^ j = (of_int n * 2 ^ s / 2 ^ E :: real)" by (simp add: s power_add)
  then show ?thesis using round_scaled_exact[OF assms(1,2), of E s] by simp
qed

lemma round_mag_error:
  assumes "0 \<le> a"
  shows "\<bar>round_mag a - a\<bar> \<le> a / 2 ^ 53 + 1 / 2 ^ 100"
proof -
  have "(2::real) ^ 100 \<le> 2 ^ 1074" by (rule power_increasing) simp_all
  also have "\<dots> \<le> 2 * 2 ^ 1074" by simp
  finally have "1 / (2 * 2 ^ 1074) \<le> 1 / (2 ^ 100 :: real)"
    by (intro divide_left_mono) simp_all
  with round_scaled_error[OF assms, of 1074] show ?thesis
    unfolding round_mag_def by linarith
qed

lemma round_mag_mono: "0 \<le> a \<Longrightarrow> a \<le> b \<Longrightarrow> round_mag a \<le> round_mag b"
  unfolding round_mag_def by (rule round_scaled_mono)

lemma round_mag_q_big:
  "2 ^ (52 + j) \<le> a \<Longrightarrow> a < 2 ^ (53 + j) \<Longrightarrow>
   round_mag a = of_int (round_half_even (a / 2 ^ j)) * 2 ^ j"
  unfolding round_mag_def by (rule round_scaled_q_big)

lemma round_mag_q_small:
  "j \<le> 1074 \<Longrightarrow> 2 ^ 52 \<le> a * 2 ^ j \<Longrightarrow> a * 2 ^ j < 2 ^ 53 \<Longrightarrow>
   round_mag a = of_int (round_half_even (a * 2 ^ j)) / 2 ^ j"
  unfolding round_mag_def by (rule round_scaled_q_small)

lemma round_mag_0: "round_mag 0 = 0"
  unfolding round_mag_def by (rule round_scaled_0)

lemma round_mag_nonneg: "0 \<le> a \<Longrightarrow> 0 \<le> round_mag a"
  using round_mag_mono[of 0 a] by (simp add: round_mag_0)

lemma round_mag_int: "0 \<le> n \<Longrightarrow> n < 2 ^ 53 \<Longrightarrow> round_mag (of_int n) = of_int n"
  unfolding round_mag_def by (rule round_scaled_int)

lemma round_mag_pow2: "round_mag (2 ^ i) = 2 ^ i"
  unfolding round_mag_def by (rule round_scaled_pow2)

lemma round_mag_le_pow2: "0 \<le> a \<Longrightarrow> a \<le> 2 ^ i \<Longrightarrow> round_mag a \<le> 2 ^ i"
  using round_mag_mono[of a "2 ^ i"] by (simp only: round_mag_pow2)

lemma round_mag_dyadic:
  "0 \<le> n \<Longrightarrow> n < 2 ^ 53 \<Longrightarrow> j \<le> 1074 \<Longrightarrow> round_mag (of_int n / 2 ^ j) = of_int n / 2 ^ j"
  unfolding round_mag_def by (rule round_scaled_dyadic)

lemma round_mag_tenth: "round_mag (1 / 10) = 3602879701896397 / 36028797018963968"
  by (simp add: round_mag_q_small[of 56] round_half_even_def Let_def)

lemma round64_nonneg:
  "0 \<le> x \<Longrightarrow> round_mag x < 2 ^ 1024 \<Longrightarrow> round64 x = Fin (round_mag x)"
  by (simp add: round64_def Let_def)



lemma round64_bounded:
  assumes "\<bar>x\<bar> \<le> 2 ^ n" "n < 1024"
  shows "\<exists>y. round64 x = Fin y \<and> \<bar>y\<bar> \<le> 2 ^ n"
proof -
  have m: "round_mag \<bar>x\<bar> \<le> 2 ^ n" using assms(1) by (intro round_mag_le_pow2) simp_all
  have "(2::real) ^ n < 2 ^ 1024" using assms(2) by (intro power_strict_increasing) simp_all
  with m have f: "\<not> 2 ^ 1024 \<le> round_mag \<bar>x\<bar>" by linarith
  have "0 \<le> round_mag \<bar>x\<bar>" by (rule round_mag_nonneg) simp
  with m f show ?thesis
    unfolding round64_def Let_def by (simp only: if_False) auto
qed

lemma int_to_float_bounded:
  assumes "\<bar>n\<bar> \<le> 2 ^ k" "k < 1024"
  shows "\<exists>y. int_to_float n = Inr (Fin y) \<and> \<bar>y\<bar> \<le> 2 ^ k \<and> (n < 0 \<longrightarrow> y < 0) \<and> (0 \<le> n \<longrightarrow> 0 \<le> y)"
proof -
  have "\<bar>real_of_int n\<bar> \<le> 2 ^ k"
    using assms(1) by (metis of_int_abs of_int_le_iff of_int_numeral of_int_power)
  from round64_bounded[OF this assms(2)] obtain y where
    y: "round64 (of_int n) = Fin y" "\<bar>y\<bar> \<le> 2 ^ k" by blast
  have neg: "y < 0" if "n < 0"
  proof -
    from that have "1 \<le> \<bar>real_of_int n\<bar>" by simp
    then have "round_mag 1 \<le> round_mag \<bar>real_of_int n\<bar>" by (intro round_mag_mono) simp_all
    moreover have "round_mag 1 = 1" using round_mag_pow2[of 0] by simp
    ultimately have "1 \<le> round_mag \<bar>real_of_int n\<bar>" by simp
    with y(1) that show ?thesis
      by (auto simp: round64_def Let_def split: if_splits)
  qed
  have pos: "0 \<le> y" if "0 \<le> n"
  proof -
    have "0 \<le> round_mag \<bar>real_of_int n\<bar>" by (rule round_mag_nonneg) simp
    with y(1) that show ?thesis by (auto simp: round64_def Let_def split: if_splits)
  qed
  from y neg pos show ?thesis by (simp add: int_to_float_def)
qed




lemma round_scaled_int_pow:
  assumes "0 \<le> n" "n < 2 ^ 53"
  shows "round_scaled E (of_int n * 2 ^ k) = of_int n * 2 ^ k"
proof -
  have "of_int n * 2 ^ (k + E) / 2 ^ E = (of_int n * 2 ^ k :: real)"
    by (simp add: power_add)
  with round_scaled_exact[OF assms, of E "k + E"] show ?thesis by simp
qed

lemma round_mag_int_pow:
  "0 \<le> n \<Longrightarrow> n < 2 ^ 53 \<Longrightarrow> round_mag (of_int n * 2 ^ k) = of_int n * 2 ^ k"
  unfolding round_mag_def by (rule round_scaled_int_pow)

lemma round64_exact:
  assumes "\<bar>m\<bar> < 2 ^ 53" "\<bar>of_int m * 2 ^ k\<bar> < (2 ^ 1024 :: real)"
  shows "round64 (of_int m * 2 ^ k) = Fin (of_int m * 2 ^ k)"
proof -
  have a: "\<bar>of_int m * 2 ^ k :: real\<bar> = of_int \<bar>m\<bar> * 2 ^ k" by (simp add: abs_mult)
  have "round_mag (of_int \<bar>m\<bar> * 2 ^ k) = of_int \<bar>m\<bar> * 2 ^ k"
    using assms(1) by (intro round_mag_int_pow) simp_all
  then have r: "round_mag \<bar>of_int m * 2 ^ k\<bar> = \<bar>of_int m * 2 ^ k\<bar>" by (simp only: a)
  show ?thesis
    unfolding round64_def Let_def r using assms(2) by auto
qed

lemmas round64_int = round64_exact[where k = 0, simplified]

lemma purchase64_success:
  assumes "accepts_id db i" "products64 st i = Some p" "\<not> p_quantity p < q"
    and "int_to_float q = Inr fq" "client_session st = Some s"
    and "\<not> f_lt (inserted_money64 s) (f_mul (p_price p) fq)"
    and "accepts_quantity db (p_quantity p - q)"
  shows "purchase64 db (Value i) (Value q) st =
     (Inr (Purchased64 q (p_name p)
             (py_round2_64 (f_sub (inserted_money64 s) (f_mul (p_price p) fq)))
             (p_quantity p - q)),
      st\<lparr>products64 := (products64 st)(i \<mapsto> p\<lparr>p_quantity := p_quantity p - q\<rparr>),
         client_session := Some (s\<lparr>inserted_money64 :=
             f_sub (inserted_money64 s) (f_mul (p_price p) fq),
           current_transaction64 := current_transaction64 s @
             [\<lparr>line_product_id = i, line_name = p_name p, line_quantity = q,
               line_price = p_price p, line_total = f_mul (p_price p) fq\<rparr>]\<rparr>)\<rparr>)"
  using assms by (simp add: purchase64_def Let_def)

lemma purchase64_commit_refused:
  assumes "accepts_id db i" "products64 st i = Some p" "\<not> p_quantity p < q"
    and "int_to_float q = Inr fq" "client_session st = Some s"
    and "\<not> f_lt (inserted_money64 s) (f_mul (p_price p) fq)"
    and "\<not> accepts_quantity db (p_quantity p - q)"
  shows "purchase64 db (Value i) (Value q) st =
     (Inl DatabaseError,
      st\<lparr>client_session := Some (s\<lparr>inserted_money64 :=
             f_sub (inserted_money64 s) (f_mul (p_price p) fq),
           current_transaction64 := current_transaction64 s @
             [\<lparr>line_product_id = i, line_name = p_name p, line_quantity = q,
               line_price = p_price p, line_total = f_mul (p_price p) fq\<rparr>]\<rparr>)\<rparr>)"
  using assms by (simp add: purchase64_def Let_def)

text \<open>
  Claim C4, as amended. For a product id the database accepts, \<open>purchase\<close> answers with
  the error for invalid numeric input, then the one for an unknown product, then
  insufficient stock (\<open>quantity > product.quantity\<close>), then, for a quantity that converts
  to a float and on an initialized session, insufficient funds
  (\<open>insertedMoney < price * quantity\<close> in binary64), in this order, and in each of these
  cases leaves the state as it was; otherwise, when the database accepts the new stock,
  it decrements the product's stock by the quantity, decrements the inserted money by
  \<open>price * quantity\<close> and appends one purchase-line record. Every quantity of magnitude
  at most \<open>2^1023\<close> converts to a float.
\<close>

theorem purchase64_checks:
  "purchase64 db Malformed qf st = (Inr (Error400_64 InvalidInput64), st)
   \<and> purchase64 db (Value i) Malformed st = (Inr (Error400_64 InvalidInput64), st)
   \<and> (accepts_id db i \<and> products64 st i = None \<longrightarrow>
        purchase64 db (Value i) (Value q) st = (Inr (Error400_64 InvalidProduct64), st))
   \<and> (accepts_id db i \<and> products64 st i = Some p \<and> p_quantity p < q \<longrightarrow>
        purchase64 db (Value i) (Value q) st =
          (Inr (Error400_64 (InsufficientStock64 (p_quantity p))), st))
   \<and> (accepts_id db i \<and> products64 st i = Some p \<and> q \<le> p_quantity p
        \<and> int_to_float q = Inr fq \<and> client_session st = Some s
        \<and> f_lt (inserted_money64 s) (f_mul (p_price p) fq) \<longrightarrow>
        purchase64 db (Value i) (Value q) st =
          (Inr (Error400_64 (InsufficientFunds64 (f_mul (p_price p) fq))), st))
   \<and> (accepts_id db i \<and> products64 st i = Some p \<and> q \<le> p_quantity p
        \<and> int_to_float q = Inr fq \<and> client_session st = Some s
        \<and> \<not> f_lt (inserted_money64 s) (f_mul (p_price p) fq)
        \<and> accepts_quantity db (p_quantity p - q) \<longrightarrow>
        (\<exists>r. purchase64 db (Value i) (Value q) st =
          (Inr r,
           st\<lparr>products64 := (products64 st)(i \<mapsto> p\<lparr>p_quantity := p_quantity p - q\<rparr>),
              client_session := Some (s\<lparr>inserted_money64 :=
                  f_sub (inserted_money64 s) (f_mul (p_price p) fq),
                current_transaction64 := current_transaction64 s @
                  [\<lparr>line_product_id = i, line_name = p_name p, line_quantity = q,
                    line_price = p_price p, line_total = f_mul (p_price p) fq\<rparr>]\<rparr>)\<rparr>)))
   \<and> (\<bar>q\<bar> \<le> 2 ^ 1023 \<longrightarrow> (\<exists>x. int_to_float q = Inr (Fin x)))"
proof (intro conjI impI)
  show "purchase64 db Malformed qf st = (Inr (Error400_64 InvalidInput64), st)"
    by (simp add: purchase64_def)
  show "purchase64 db (Value i) Malformed st = (Inr (Error400_64 InvalidInput64), st)"
    by (simp add: purchase64_def)
  show "purchase64 db (Value i) (Value q) st = (Inr (Error400_64 InvalidProduct64), st)"
    if "accepts_id db i \<and> products64 st i = None"
    using that by (simp add: purchase64_def)
  show "purchase64 db (Value i) (Value q) st =
      (Inr (Error400_64 (InsufficientStock64 (p_quantity p))), st)"
    if "accepts_id db i \<and> products64 st i = Some p \<and> p_quantity p < q"
    using that by (simp add: purchase64_def)
  show "purchase64 db (Value i) (Value q) st =
      (Inr (Error400_64 (InsufficientFunds64 (f_mul (p_price p) fq))), st)"
    if "accepts_id db i \<and> products64 st i = Some p \<and> q \<le> p_quantity p
        \<and> int_to_float q = Inr fq \<and> client_session st = Some s
        \<and> f_lt (inserted_money64 s) (f_mul (p_price p) fq)"
    using that by (simp add: purchase64_def Let_def)
  show "\<exists>r. purchase64 db (Value i) (Value q) st =
      (Inr r,
       st\<lparr>products64 := (products64 st)(i \<mapsto> p\<lparr>p_quantity := p_quantity p - q\<rparr>),
          client_session := Some (s\<lparr>inserted_money64 :=
              f_sub (inserted_money64 s) (f_mul (p_price p) fq),
            current_transaction64 := current_transaction64 s @
              [\<lparr>line_product_id = i, line_name = p_name p, line_quantity = q,
                line_price = p_price p, line_total = f_mul (p_price p) fq\<rparr>]\<rparr>)\<rparr>)"
    if "accepts_id db i \<and> products64 st i = Some p \<and> q \<le> p_quantity p
        \<and> int_to_float q = Inr fq \<and> client_session st = Some s
        \<and> \<not> f_lt (inserted_money64 s) (f_mul (p_price p) fq)
        \<and> accepts_quantity db (p_quantity p - q)"
  proof -
    from that have "accepts_id db i" "products64 st i = Some p" "\<not> p_quantity p < q"
      "int_to_float q = Inr fq" "client_session st = Some s"
      "\<not> f_lt (inserted_money64 s) (f_mul (p_price p) fq)"
      "accepts_quantity db (p_quantity p - q)" by simp_all
    from purchase64_success[OF this] show ?thesis by blast
  qed
  show "\<exists>x. int_to_float q = Inr (Fin x)" if "\<bar>q\<bar> \<le> 2 ^ 1023"
    using int_to_float_bounded[OF that] by auto
qed

lemma round64_small_int: "\<bar>m\<bar> < 2 ^ 53 \<Longrightarrow> round64 (of_int m) = Fin (of_int m)"
proof -
  assume a: "\<bar>m\<bar> < 2 ^ 53"
  then have "\<bar>real_of_int m\<bar> < 2 ^ 53"
    by (metis of_int_abs of_int_less_iff of_int_numeral of_int_power)
  also have "(2::real) ^ 53 < 2 ^ 1024" by (rule power_strict_increasing) simp_all
  finally have "\<bar>of_int m * 2 ^ 0\<bar> < (2 ^ 1024 :: real)" by simp
  from round64_exact[OF a this] show ?thesis by simp
qed

lemma round64_numeral:
  "(numeral w :: int) < 2 ^ 53 \<Longrightarrow> round64 (numeral w) = Fin (numeral w)"
  "(numeral w :: int) < 2 ^ 53 \<Longrightarrow> round64 (- numeral w) = Fin (- numeral w)"
  "round64 0 = Fin 0" "round64 1 = Fin 1" "round64 (- 1) = Fin (- 1)"
  using round64_small_int[of "numeral w"] round64_small_int[of "- numeral w"]
    round64_small_int[of 0] round64_small_int[of 1] round64_small_int[of "- 1"]
  by simp_all

lemma int_to_float_numeral:
  "(numeral w :: int) < 2 ^ 53 \<Longrightarrow> int_to_float (numeral w) = Inr (Fin (numeral w))"
  "(numeral w :: int) < 2 ^ 53 \<Longrightarrow> int_to_float (- numeral w) = Inr (Fin (- numeral w))"
  "int_to_float 0 = Inr (Fin 0)" "int_to_float 1 = Inr (Fin 1)"
  "int_to_float (- 1) = Inr (Fin (- 1))"
  by (simp_all add: int_to_float_def round64_numeral)

lemma session_fresh_state64: "client_session fresh_state64 = Some initial_session64"
  by (simp add: fresh_state64_def index64_def)

lemma products_fresh_state64: "products64 fresh_state64 = sample_products64"
  by (simp add: fresh_state64_def index64_def)

lemma sample_products64_values:
  "sample_products64 1 = Some \<lparr>p_name = ''sando'', p_kind = ''cake'', p_price = Fin 15, p_quantity = 10\<rparr>"
  "sample_products64 4 = Some \<lparr>p_name = ''Coca Cola'', p_kind = ''drink'', p_price = Fin 50, p_quantity = 15\<rparr>"
  "sample_products64 7 = None"
  "sample_products64 18446744073709551616 = None"
  by (simp_all add: sample_products64_def)

lemma initial_session64_fields:
  "inserted_money64 initial_session64 = Fin 0"
  "current_transaction64 initial_session64 = []"
  "denominations_inserted64 initial_session64 = zero_counts64"
  by (simp_all add: initial_session64_def)

lemma round_mag_coins:
  "round_mag (1 / 2) = 1 / 2" "round_mag (1 / 4) = 1 / 4"
  "round_mag (1 / 10) = 3602879701896397 / 36028797018963968"
  "round_mag (1 / 20) = 3602879701896397 / 72057594037927936"
  by (simp_all add: round_mag_q_small[of 53] round_mag_q_small[of 54] round_mag_q_small[of 56]
        round_mag_q_small[of 57] round_half_even_def Let_def)

lemma coin_floats:
  "round64 (1 / 2) = Fin (1 / 2)" "round64 (1 / 4) = Fin (1 / 4)"
  "round64 (1 / 10) = Fin (3602879701896397 / 36028797018963968)"
  "round64 (1 / 20) = Fin (3602879701896397 / 72057594037927936)"
  by (simp_all add: round64_def round_mag_coins)

lemma whole_amount_not_key:
  "TextFloat (Fin (numeral w)) \<notin> fst ` set zero_counts64"
proof -
  have "(1::real) \<le> numeral w" by simp
  then have "(numeral w :: real) \<noteq> 1 / 2" "(numeral w :: real) \<noteq> 1 / 4"
    "(numeral w :: real) \<noteq> 3602879701896397 / 36028797018963968"
    "(numeral w :: real) \<noteq> 3602879701896397 / 72057594037927936"
    by linarith+
  then show ?thesis
    by (simp add: zero_counts64_def NOTES_def COINS_def coin_floats)
qed

lemma insert_money64_uncounted:
  assumes "client_session st = Some s"
    and "TextFloat amount \<notin> fst ` set (denominations_inserted64 s)"
  shows "insert_money64 (Value amount) st =
     (Inr (Inserted64 (py_round2_64 (f_add (inserted_money64 s) amount)) amount),
      st\<lparr>client_session := Some (s\<lparr>inserted_money64 := f_add (inserted_money64 s) amount\<rparr>)\<rparr>)"
  using assms by (simp add: insert_money64_def Let_def)

lemma seventy_state64_eq:
  "seventy_state64 =
     fresh_state64\<lparr>client_session := Some (initial_session64\<lparr>inserted_money64 := Fin 70\<rparr>)\<rparr>"
proof -
  have 1: "snd (insert_money64 (Value (Fin 50)) fresh_state64) =
      fresh_state64\<lparr>client_session := Some (initial_session64\<lparr>inserted_money64 := Fin 50\<rparr>)\<rparr>"
    using insert_money64_uncounted[OF session_fresh_state64, of "Fin 50"]
    by (simp add: initial_session64_fields whole_amount_not_key round64_numeral)
  have 2: "snd (insert_money64 (Value (Fin 20))
        (fresh_state64\<lparr>client_session := Some (initial_session64\<lparr>inserted_money64 := Fin 50\<rparr>)\<rparr>)) =
      fresh_state64\<lparr>client_session := Some (initial_session64\<lparr>inserted_money64 := Fin 70\<rparr>)\<rparr>"
    using insert_money64_uncounted[of
        "fresh_state64\<lparr>client_session := Some (initial_session64\<lparr>inserted_money64 := Fin 50\<rparr>)\<rparr>"
        "initial_session64\<lparr>inserted_money64 := Fin 50\<rparr>" "Fin 20"]
    by (simp add: initial_session64_fields whole_amount_not_key round64_numeral)
  show ?thesis unfolding seventy_state64_def 1 2 ..
qed

lemma seventy_state64_fields:
  "client_session seventy_state64 = Some (initial_session64\<lparr>inserted_money64 := Fin 70\<rparr>)"
  "products64 seventy_state64 = sample_products64"
  by (simp_all add: seventy_state64_eq products_fresh_state64)

lemma int64_database_fields:
  "accepts_id int64_database n \<longleftrightarrow> - (2 ^ 63) \<le> n \<and> n < 2 ^ 63"
  "accepts_quantity int64_database n \<longleftrightarrow> - (2 ^ 63) \<le> n \<and> n < 2 ^ 63"
  "accepts_log int64_database row"
  by (simp_all add: int64_database_def)

theorem purchase64_checks_witness:
  "purchase64 int64_database Malformed Absent seventy_state64 =
       (Inr (Error400_64 InvalidInput64), seventy_state64)
   \<and> purchase64 int64_database (Value 1) Malformed seventy_state64 =
       (Inr (Error400_64 InvalidInput64), seventy_state64)
   \<and> purchase64 int64_database (Value 7) (Value 1) seventy_state64 =
       (Inr (Error400_64 InvalidProduct64), seventy_state64)
   \<and> purchase64 int64_database (Value 1) (Value 11) seventy_state64 =
       (Inr (Error400_64 (InsufficientStock64 10)), seventy_state64)
   \<and> purchase64 int64_database (Value 4) (Value 2) seventy_state64 =
       (Inr (Error400_64 (InsufficientFunds64 (Fin 100))), seventy_state64)
   \<and> (\<exists>r. purchase64 int64_database (Value 1) (Value 1) seventy_state64 =
       (Inr r, seventy_state64
         \<lparr>products64 := sample_products64(1 \<mapsto>
            \<lparr>p_name = ''sando'', p_kind = ''cake'', p_price = Fin 15, p_quantity = 9\<rparr>),
          client_session := Some (initial_session64\<lparr>inserted_money64 := Fin 55,
            current_transaction64 :=
              [\<lparr>line_product_id = 1, line_name = ''sando'', line_quantity = 1,
                line_price = Fin 15, line_total = Fin 15\<rparr>]\<rparr>)\<rparr>))
   \<and> (\<exists>x. int_to_float 2 = Inr (Fin x))"
proof -
  let ?sando = "\<lparr>p_name = ''sando'', p_kind = ''cake'', p_price = Fin 15, p_quantity = 10\<rparr>"
  let ?cola = "\<lparr>p_name = ''Coca Cola'', p_kind = ''drink'', p_price = Fin 50, p_quantity = 15\<rparr>"
  let ?s = "initial_session64\<lparr>inserted_money64 := Fin 70\<rparr>"
  note ev = seventy_state64_fields sample_products64_values int64_database_fields
    initial_session64_fields int_to_float_numeral round64_numeral f_sub_def
  have a: "purchase64 int64_database Malformed Absent seventy_state64 =
       (Inr (Error400_64 InvalidInput64), seventy_state64)"
    using purchase64_checks by blast
  have b: "purchase64 int64_database (Value 1) Malformed seventy_state64 =
       (Inr (Error400_64 InvalidInput64), seventy_state64)"
    using purchase64_checks by blast
  have c: "purchase64 int64_database (Value 7) (Value 1) seventy_state64 =
       (Inr (Error400_64 InvalidProduct64), seventy_state64)"
    using purchase64_checks[of int64_database _ seventy_state64 7 1] by (simp add: ev)
  have d: "purchase64 int64_database (Value 1) (Value 11) seventy_state64 =
       (Inr (Error400_64 (InsufficientStock64 10)), seventy_state64)"
    using purchase64_checks[of int64_database _ seventy_state64 1 11 ?sando] by (simp add: ev)
  have e: "purchase64 int64_database (Value 4) (Value 2) seventy_state64 =
       (Inr (Error400_64 (InsufficientFunds64 (Fin 100))), seventy_state64)"
    using purchase64_checks[of int64_database _ seventy_state64 4 2 ?cola "Fin 2" ?s]
    by (simp add: ev)
  have f: "\<exists>r. purchase64 int64_database (Value 1) (Value 1) seventy_state64 =
       (Inr r, seventy_state64
         \<lparr>products64 := sample_products64(1 \<mapsto>
            \<lparr>p_name = ''sando'', p_kind = ''cake'', p_price = Fin 15, p_quantity = 9\<rparr>),
          client_session := Some (initial_session64\<lparr>inserted_money64 := Fin 55,
            current_transaction64 :=
              [\<lparr>line_product_id = 1, line_name = ''sando'', line_quantity = 1,
                line_price = Fin 15, line_total = Fin 15\<rparr>]\<rparr>)\<rparr>)"
    using purchase64_checks[of int64_database _ seventy_state64 1 1 ?sando "Fin 1" ?s]
    by (simp add: ev)
  have g: "\<exists>x. int_to_float 2 = Inr (Fin x)"
    using purchase64_checks[of int64_database _ seventy_state64 1 2] by simp
  from a b c d e f g show ?thesis by blast
qed

lemma round64_min_int:
  "round64 (- 9223372036854775808) = Fin (- 9223372036854775808)"
  "round64 (- 138350580552821637120) = Fin (- 138350580552821637120)"
  "round64 138350580552821637120 = Fin 138350580552821637120"
  using round64_exact[of "- 1" 63] round64_exact[of "- 15" 63] round64_exact[of 15 63]
  by simp_all

lemma purchase64_min_int:
  "purchase64 int64_database (Value 1) (Value (- (2 ^ 63))) fresh_state64 =
     (Inl DatabaseError,
      fresh_state64\<lparr>client_session := Some (initial_session64
        \<lparr>inserted_money64 := Fin (15 * 2 ^ 63),
         current_transaction64 :=
           [\<lparr>line_product_id = 1, line_name = ''sando'', line_quantity = - (2 ^ 63),
             line_price = Fin 15, line_total = Fin (- (15 * 2 ^ 63))\<rparr>]\<rparr>)\<rparr>)"
  by (simp add: purchase64_def Let_def int64_database_fields products_fresh_state64
        sample_products64_values session_fresh_state64 initial_session64_fields
        int_to_float_def round64_min_int f_sub_def)

text \<open>
  Claim C4 as stated fails on a database whose integer columns hold 64 bits. A purchase of
  quantity \<open>-2^63\<close> of product 1 passes every check, changes the inserted money and the
  purchase list, and then fails when the database refuses the new stock; and a purchase
  of the product id \<open>2^64\<close>, which does not exist, fails in the lookup and not with the
  unknown-product error.
\<close>

theorem purchase64_failure_mutates:
  "purchase64 int64_database (Value 1) (Value (- (2 ^ 63))) fresh_state64 =
     (Inl DatabaseError,
      fresh_state64\<lparr>client_session := Some (initial_session64
        \<lparr>inserted_money64 := Fin (15 * 2 ^ 63),
         current_transaction64 :=
           [\<lparr>line_product_id = 1, line_name = ''sando'', line_quantity = - (2 ^ 63),
             line_price = Fin 15, line_total = Fin (- (15 * 2 ^ 63))\<rparr>]\<rparr>)\<rparr>)
   \<and> inserted_money64 initial_session64 = Fin 0
   \<and> products64 fresh_state64 (2 ^ 64) = None
   \<and> purchase64 int64_database (Value (2 ^ 64)) (Value 1) fresh_state64 =
       (Inl DatabaseError, fresh_state64)"
proof -
  have "purchase64 int64_database (Value (2 ^ 64)) (Value 1) fresh_state64 =
       (Inl DatabaseError, fresh_state64)"
    by (simp add: purchase64_def int64_database_fields)
  with purchase64_min_int show ?thesis
    by (simp add: initial_session64_fields products_fresh_state64 sample_products64_values)
qed




end
